theory Spec2Isabelle
  imports Complex_Main
begin

section \<open>Data model (inventory/models.py)\<close>

text \<open>
  The Django models are embedded as records and the database as a record of tables.
  A table is the list of its rows in insertion order; every row carries its primary key.
  Python integers are unbounded, so integer fields are \<open>int\<close>; the \<open>Decimal\<close> values of
  a saved instance are exact rationals; timestamps are readings of a clock that the caller passes in
  (\<open>timezone.now()\<close>, \<open>auto_now_add\<close>).  Messages are written in ASCII (the accents of the
  Spanish originals are dropped).  The fields \<open>created_at\<close>/\<open>updated_at\<close> of \<open>Product\<close>
  and the tables behind \<open>Category\<close> and \<open>Supplier\<close> other than their names play no role in
  any operation below and are left out.
\<close>

type_synonym decimal = rat
type_synonym datetime = nat

datatype error =
    ValueError string
  | ValidationError string
  | KeyError string
  | DoesNotExist
  | MultipleObjectsReturned
  | Http404
  | ModuleNotFoundError

record product =
  product_pk :: nat
  code :: string
  name :: string
  description :: string
  category :: string
  supplier :: string
  unit_price :: decimal
  current_stock :: int
  minimum_stock :: int
  maximum_stock :: int
  is_active :: bool

text \<open>
  A \<open>StockMovement\<close> instance: \<open>movement_pk\<close> is \<open>None\<close> until the row is inserted,
  \<open>product\<close> is the foreign key (the primary key of the product), \<open>created_by\<close> the
  primary key of the user.
\<close>

record stock_movement =
  movement_pk :: "nat option"
  product :: nat
  movement_type :: string
  quantity :: int
  movement_unit_price :: "decimal option"
  total_value :: "decimal option"
  reference :: string
  movement_notes :: string
  created_by :: nat
  created_at :: datetime
  previous_stock :: int
  new_stock :: int

record low_stock_alert =
  alert_pk :: nat
  alert_product :: nat
  alert_current_stock :: int
  alert_minimum_stock :: int
  is_resolved :: bool
  alert_created_at :: datetime
  resolved_at :: "datetime option"

text \<open>
  Besides the tables, the database has the range that its backend gives an \<open>IntegerField\<close>
  (\<open>connection.ops.integer_field_range\<close>, a bound being \<open>None\<close> where the backend has none);
  the settings that choose the backend are not among the sources.
\<close>

record db =
  products :: "product list"
  movements :: "stock_movement list"
  alerts :: "low_stock_alert list"
  categories :: "string list"
  suppliers :: "string list"
  integer_range :: "int option \<times> int option"

subsection \<open>Queries and row writes\<close>

definition get_product :: "nat \<Rightarrow> db \<Rightarrow> product option" where
  "get_product k d = find (\<lambda>p. product_pk p = k) (products d)"

text \<open>\<open>Model.save()\<close> of a product that has a primary key: the row with that key is rewritten.\<close>

definition save_product :: "product \<Rightarrow> db \<Rightarrow> db" where
  "save_product p d =
     d\<lparr>products := map (\<lambda>r. if product_pk r = product_pk p then p else r) (products d)\<rparr>"

text \<open>The key an auto-increment column gives the next row: one more than every key in use.\<close>

definition next_pk :: "nat list \<Rightarrow> nat" where
  "next_pk ks = Suc (fold max ks 0)"

text \<open>The range validators that an \<open>IntegerField\<close> gets from the backend.\<close>

definition in_integer_range :: "db \<Rightarrow> int \<Rightarrow> bool" where
  "in_integer_range d v =
     ((case fst (integer_range d) of None \<Rightarrow> True | Some lo \<Rightarrow> lo \<le> v) \<and>
      (case snd (integer_range d) of None \<Rightarrow> True | Some hi \<Rightarrow> v \<le> hi))"

definition movement_keys :: "stock_movement list \<Rightarrow> nat list" where
  "movement_keys ms = concat (map (\<lambda>r. case movement_pk r of None \<Rightarrow> [] | Some k \<Rightarrow> [k]) ms)"

section \<open>Product (models.py, lines 81-104)\<close>

definition is_low_stock :: "product \<Rightarrow> bool" where
  "is_low_stock p = (current_stock p \<le> minimum_stock p)"

text \<open>
  \<open>Product.update_stock\<close>: the instance is changed in memory and then saved.  The
  \<open>ValueError\<close> is raised before anything is written.  A movement type other than
  \<open>IN\<close> and \<open>OUT\<close> changes nothing and still saves.
\<close>

definition update_stock :: "product \<Rightarrow> int \<Rightarrow> string \<Rightarrow> db \<Rightarrow> (error + product) \<times> db" where
  "update_stock p q t d =
     (if t = ''IN'' then
        (let p' = p\<lparr>current_stock := current_stock p + q\<rparr> in (Inr p', save_product p' d))
      else if t = ''OUT'' then
        (if current_stock p \<ge> q then
           (let p' = p\<lparr>current_stock := current_stock p - q\<rparr> in (Inr p', save_product p' d))
         else (Inl (ValueError ''Stock insuficiente''), d))
      else (Inr p, save_product p d))"

section \<open>StockMovement.save (models.py, lines 161-192)\<close>

text \<open>Python truthiness of an optional \<open>Decimal\<close>: \<open>None\<close> and zero are false.\<close>

definition truthy :: "decimal option \<Rightarrow> bool" where
  "truthy v = (case v of None \<Rightarrow> False | Some x \<Rightarrow> x \<noteq> 0)"

text \<open>
  \<open>super().save()\<close>: an instance without a primary key is inserted with a fresh key and
  \<open>created_at\<close> set by \<open>auto_now_add\<close>; an instance with a key rewrites the row of that
  key, and is inserted under that key when there is no such row.
\<close>

definition super_save :: "stock_movement \<Rightarrow> datetime \<Rightarrow> db \<Rightarrow> stock_movement \<times> db" where
  "super_save m now d =
     (case movement_pk m of
        None \<Rightarrow>
          (let m' = m\<lparr>movement_pk := Some (next_pk (movement_keys (movements d))),
                       created_at := now\<rparr>
           in (m', d\<lparr>movements := movements d @ [m']\<rparr>))
      | Some k \<Rightarrow>
          (if Some k \<in> set (map movement_pk (movements d)) then
             (m, d\<lparr>movements := map (\<lambda>r. if movement_pk r = Some k then m else r) (movements d)\<rparr>)
           else
             (let m' = m\<lparr>created_at := now\<rparr> in (m', d\<lparr>movements := movements d @ [m']\<rparr>))))"

text \<open>\<open>StockMovement.objects.filter(pk=self.pk).update(new_stock=self.new_stock)\<close>\<close>

definition update_new_stock :: "nat option \<Rightarrow> int \<Rightarrow> db \<Rightarrow> db" where
  "update_new_stock k n d =
     d\<lparr>movements := map (\<lambda>r. if movement_pk r = k \<and> k \<noteq> None then r\<lparr>new_stock := n\<rparr> else r)
                          (movements d)\<rparr>"

text \<open>
  The part of \<open>save\<close> that runs for a new instance only (lines 173-187): the product is
  read, its stock is changed and written, and the two snapshots are taken.  \<open>self.product\<close>
  is the row of the foreign key; a key without a row raises \<open>DoesNotExist\<close>.
\<close>

definition apply_to_product :: "stock_movement \<Rightarrow> db \<Rightarrow> (error + stock_movement) \<times> db" where
  "apply_to_product m d =
     (case get_product (product m) d of
        None \<Rightarrow> (Inl DoesNotExist, d)
      | Some p \<Rightarrow>
          (let m1 = m\<lparr>previous_stock := current_stock p\<rparr> in
           if movement_type m1 = ''ADJ'' then
             (let p' = p\<lparr>current_stock := quantity m1\<rparr>
              in (Inr (m1\<lparr>new_stock := current_stock p'\<rparr>), save_product p' d))
           else
             (case update_stock p (quantity m1) (movement_type m1) d of
                (Inl (ValueError e), d') \<Rightarrow> (Inl (ValidationError e), d')
              | (Inl e, d') \<Rightarrow> (Inl e, d')
              | (Inr p', d') \<Rightarrow> (Inr (m1\<lparr>new_stock := current_stock p'\<rparr>), d'))))"

text \<open>
  \<open>save\<close> returns the instance as it is after the call together with the database; when
  it raises, the database returned is the one the exception leaves behind.
\<close>

definition save :: "stock_movement \<Rightarrow> datetime \<Rightarrow> db \<Rightarrow> (error + stock_movement) \<times> db" where
  "save m now d =
     (if movement_type m \<notin> set [''IN'', ''OUT'', ''ADJ''] then
        (Inl (ValueError ''Tipo de movimiento no valido''), d)
      else
        (let is_new = (movement_pk m = None);
             m1 = (if truthy (movement_unit_price m) \<and> \<not> truthy (total_value m)
                   then m\<lparr>total_value :=
                            Some (the (movement_unit_price m) * of_int (quantity m))\<rparr>
                   else m)
         in case (if is_new then apply_to_product m1 d else (Inr m1, d)) of
              (Inl e, d') \<Rightarrow> (Inl e, d')
            | (Inr m2, d') \<Rightarrow>
                (let (m3, d'') = super_save m2 now d'
                 in (Inr m3, update_new_stock (movement_pk m3) (new_stock m3) d''))))"

section \<open>StockMovementForm (forms.py, lines 57-90)\<close>

text \<open>
  A \<open>Decimal\<close> as the form field reads it: the digits as one integer with the sign, and the
  exponent, so that \<open>1.50\<close> is 150 with exponent -2.
\<close>

record pydecimal =
  coefficient :: int
  exponent :: int

definition decimal_value :: "pydecimal \<Rightarrow> decimal" where
  "decimal_value v =
     (if 0 \<le> exponent v then of_int (coefficient v) * 10 ^ nat (exponent v)
      else of_int (coefficient v) / 10 ^ nat (- exponent v))"

text \<open>The length of the digit tuple of a coefficient (\<open>len(digit_tuple)\<close>; 0 has one digit).\<close>

fun digit_count :: "nat \<Rightarrow> nat" where
  "digit_count n = (if n < 10 then 1 else Suc (digit_count (n div 10)))"

text \<open>
  Django's \<open>DecimalValidator(max_digits, decimal_places)\<close>, which a \<open>DecimalField\<close> with
  these two options runs: it counts the digits, the decimals and the whole digits from
  the digit tuple and the exponent and refuses a value that exceeds one of the three bounds.
\<close>

definition decimal_validator :: "nat \<Rightarrow> nat \<Rightarrow> pydecimal \<Rightarrow> bool" where
  "decimal_validator max_digits decimal_places v =
     (let len = digit_count (nat \<bar>coefficient v\<bar>);
          digits = (if 0 \<le> exponent v
                    then (if coefficient v \<noteq> 0 then len + nat (exponent v) else len)
                    else if nat (- exponent v) > len then nat (- exponent v) else len);
          decimals = (if 0 \<le> exponent v then 0 else nat (- exponent v));
          whole_digits = digits - decimals
      in \<not> digits > max_digits \<and> \<not> decimals > decimal_places
         \<and> \<not> whole_digits > max_digits - decimal_places)"

text \<open>
  What a request submits, after the form fields have converted the text to Python values
  (text fields stripped).  A request that lacks a required value, or whose values do not
  convert, is refused by the fields before any code below runs.
\<close>

record movement_form =
  form_product :: nat
  form_movement_type :: string
  form_quantity :: int
  form_unit_price :: "pydecimal option"
  form_reference :: string
  form_notes :: string

text \<open>
  \<open>cleaned_data\<close> holds a field only when the form field accepted it: \<open>product\<close> is a
  choice among \<open>Product.objects.all()\<close> (the active flag is no part of the queryset) and
  \<open>movement_type\<close> a choice among \<open>MOVEMENT_TYPES\<close>.
\<close>

definition cleaned_product :: "movement_form \<Rightarrow> db \<Rightarrow> product option" where
  "cleaned_product f d = get_product (form_product f) d"

definition cleaned_movement_type :: "movement_form \<Rightarrow> string option" where
  "cleaned_movement_type f =
     (if form_movement_type f \<in> set [''IN'', ''OUT'', ''ADJ''] then Some (form_movement_type f)
      else None)"

text \<open>
  \<open>StockMovementForm.clean\<close>.  The message of the first error also formats the two numbers,
  which the model leaves out.
\<close>

definition clean :: "product option \<Rightarrow> string option \<Rightarrow> int option \<Rightarrow> db \<Rightarrow> error list" where
  "clean pr mt q d =
     (case (pr, mt, q) of
        (Some p, Some t, Some n) \<Rightarrow>
          (if t = ''OUT'' \<and> n \<noteq> 0 then
             (case get_product (product_pk p) d of
                None \<Rightarrow> [ValidationError ''Producto no valido.'']
              | Some current_product \<Rightarrow>
                  (if current_stock current_product < n
                   then [ValidationError ''Stock insuficiente'']
                   else []))
           else [])
      | _ \<Rightarrow> [])"

text \<open>
  \<open>form.is_valid()\<close>.  First the form fields: the two choices, the \<open>DecimalValidator\<close> of
  \<open>unit_price\<close> (\<open>max_digits=10, decimal_places=2\<close>) and \<open>max_length=100\<close> of \<open>reference\<close>.
  Then \<open>clean\<close>.  Then the validators of the model's fields: \<open>MinValueValidator(1)\<close> and the
  upper bound of the backend's range on \<open>quantity\<close> (the lower bound is subsumed by the
  minimum of 1), \<open>MinValueValidator(0.00)\<close> on \<open>unit_price\<close>.
\<close>

definition form_errors :: "movement_form \<Rightarrow> db \<Rightarrow> error list" where
  "form_errors f d =
     (if cleaned_product f d = None then [ValidationError ''product: invalid_choice''] else []) @
     (if cleaned_movement_type f = None then [ValidationError ''movement_type: invalid_choice'']
      else []) @
     (case form_unit_price f of
        None \<Rightarrow> []
      | Some x \<Rightarrow> if decimal_validator 10 2 x then []
                  else [ValidationError ''unit_price: max_digits'']) @
     (if length (form_reference f) > 100 then [ValidationError ''reference: max_length''] else []) @
     clean (cleaned_product f d) (cleaned_movement_type f) (Some (form_quantity f)) d @
     (if form_quantity f < 1 then [ValidationError ''quantity: min_value''] else []) @
     (case snd (integer_range d) of
        None \<Rightarrow> []
      | Some hi \<Rightarrow> if form_quantity f > hi then [ValidationError ''quantity: max_value'']
                   else []) @
     (case form_unit_price f of
        None \<Rightarrow> []
      | Some x \<Rightarrow> if decimal_value x < 0 then [ValidationError ''unit_price: min_value'']
                  else [])"

definition is_valid :: "movement_form \<Rightarrow> db \<Rightarrow> bool" where
  "is_valid f d = (form_errors f d = [])"

text \<open>
  \<open>form.save(commit=False)\<close>: an unsaved instance from the form's fields.  The fields the
  form does not have keep the model's defaults; \<open>previous_stock\<close> has none and is written
  by \<open>save\<close> before it is read.
\<close>

definition form_save :: "movement_form \<Rightarrow> stock_movement" where
  "form_save f =
     \<lparr>movement_pk = None, product = form_product f, movement_type = form_movement_type f,
      quantity = form_quantity f,
      movement_unit_price = map_option decimal_value (form_unit_price f), total_value = None,
      reference = form_reference f, movement_notes = form_notes f, created_by = 0,
      created_at = 0, previous_stock = 0, new_stock = 0\<rparr>"

section \<open>Alerts (views.py, lines 189-199 and 331-341; check\_low\_stock.py; admin.py)\<close>

text \<open>
  \<open>LowStockAlert.objects.get_or_create(product=product, is_resolved=False, defaults=...)\<close>:
  the unresolved alerts of the product are looked up; none creates one from the defaults,
  one is returned as it is, several raise.
\<close>

definition unresolved_alerts :: "nat \<Rightarrow> db \<Rightarrow> low_stock_alert list" where
  "unresolved_alerts k d = filter (\<lambda>a. alert_product a = k \<and> is_resolved a = False) (alerts d)"

definition alert_get_or_create ::
  "product \<Rightarrow> datetime \<Rightarrow> db \<Rightarrow> (error + low_stock_alert \<times> bool) \<times> db" where
  "alert_get_or_create p now d =
     (case unresolved_alerts (product_pk p) d of
        [] \<Rightarrow>
          (let a = \<lparr>alert_pk = next_pk (map alert_pk (alerts d)),
                    alert_product = product_pk p,
                    alert_current_stock = current_stock p,
                    alert_minimum_stock = minimum_stock p,
                    is_resolved = False, alert_created_at = now, resolved_at = None\<rparr>
           in (Inr (a, True), d\<lparr>alerts := alerts d @ [a]\<rparr>))
      | [a] \<Rightarrow> (Inr (a, False), d)
      | _ \<Rightarrow> (Inl MultipleObjectsReturned, d))"

text \<open>The block "Crear alerta si el stock esta bajo" of \<open>stock_movement_create\<close>.\<close>

definition create_alert_if_low :: "product \<Rightarrow> datetime \<Rightarrow> db \<Rightarrow> (error + unit) \<times> db" where
  "create_alert_if_low p now d =
     (if is_low_stock p then
        (case alert_get_or_create p now d of
           (Inl e, d') \<Rightarrow> (Inl e, d')
         | (Inr _, d') \<Rightarrow> (Inr (), d'))
      else (Inr (), d))"

text \<open>
  \<open>Command.handle\<close> of \<open>check_low_stock\<close>.  The module starts with
  \<open>from inventory.inventory import models\<close> (line 5), and the package \<open>inventory\<close> has no
  module of that name: its models are \<open>inventory.models\<close>, as line 6 and the other files
  have it.  Loading the command therefore raises before \<open>handle\<close> is entered, and the loop
  over the products at or below their minimum (lines 12-41) never runs: the command ends
  with the exception and writes nothing.
\<close>

definition handle :: "datetime \<Rightarrow> db \<Rightarrow> (error + nat) \<times> db" where
  "handle now d = (Inl ModuleNotFoundError, d)"

text \<open>
  \<open>LowStockAlertAdmin\<close> (admin.py, lines 111-134) registers the alerts with the admin site
  with only \<open>created_at\<close> and \<open>resolved_at\<close> read-only; the model declares no constraint
  over the alerts of a product.  The add page saves a new alert with the product, the two
  stock numbers and the resolved flag that were entered, once the product exists and the
  numbers are in the backend's integer range.
\<close>

definition alert_admin_add ::
  "nat \<Rightarrow> int \<Rightarrow> int \<Rightarrow> bool \<Rightarrow> datetime \<Rightarrow> db \<Rightarrow> (error + low_stock_alert) \<times> db" where
  "alert_admin_add k cur mn resolved now d =
     (if get_product k d = None then (Inl (ValidationError ''product: invalid_choice''), d)
      else if \<not> in_integer_range d cur then (Inl (ValidationError ''current_stock: range''), d)
      else if \<not> in_integer_range d mn then (Inl (ValidationError ''minimum_stock: range''), d)
      else
        (let a = \<lparr>alert_pk = next_pk (map alert_pk (alerts d)), alert_product = k,
                  alert_current_stock = cur, alert_minimum_stock = mn, is_resolved = resolved,
                  alert_created_at = now, resolved_at = None\<rparr>
         in (Inr a, d\<lparr>alerts := alerts d @ [a]\<rparr>)))"

text \<open>
  \<open>resolve_alert\<close>: \<open>alert.save()\<close> rewrites the row of the alert that was read.
\<close>

definition resolve_alert :: "string \<Rightarrow> nat \<Rightarrow> datetime \<Rightarrow> db \<Rightarrow> (error + unit) \<times> db" where
  "resolve_alert method alert_id now d =
     (if method = ''POST'' then
        (case find (\<lambda>a. alert_pk a = alert_id) (alerts d) of
           None \<Rightarrow> (Inl Http404, d)
         | Some alert \<Rightarrow>
             (let alert' = alert\<lparr>is_resolved := True, resolved_at := Some now\<rparr>
              in (Inr (),
                  d\<lparr>alerts := map (\<lambda>a. if alert_pk a = alert_id then alert' else a) (alerts d)\<rparr>)))
      else (Inr (), d))"

text \<open>
  \<open>LowStockAlertAdmin.mark_as_resolved\<close>: \<open>queryset.update(is_resolved=True,
  resolved_at=timezone.now())\<close> on the selected alerts; the result is the number of rows.
\<close>

definition mark_as_resolved :: "nat list \<Rightarrow> datetime \<Rightarrow> db \<Rightarrow> nat \<times> db" where
  "mark_as_resolved queryset now d =
     (length (filter (\<lambda>a. alert_pk a \<in> set queryset) (alerts d)),
      d\<lparr>alerts := map (\<lambda>a. if alert_pk a \<in> set queryset
                              then a\<lparr>is_resolved := True, resolved_at := Some now\<rparr> else a)
                       (alerts d)\<rparr>)"

section \<open>stock\_movement\_create (views.py, lines 178-214)\<close>

datatype response = Redirect string | Render string "error list"

text \<open>
  The body of the \<open>try\<close> runs in \<open>transaction.atomic()\<close>: an exception leaves the database
  as it was when the block was entered.  \<open>movement.product\<close> after \<open>save\<close> is the product
  as \<open>save\<close> wrote it.
\<close>

definition stock_movement_create ::
  "string \<Rightarrow> movement_form \<Rightarrow> nat \<Rightarrow> datetime \<Rightarrow> db \<Rightarrow> response \<times> db" where
  "stock_movement_create method f user now d =
     (if method = ''POST'' then
        (if is_valid f d then
           (let movement = (form_save f)\<lparr>created_by := user\<rparr> in
            case save movement now d of
              (Inl e, _) \<Rightarrow> (Render ''inventory/movement_form.html'' [e], d)
            | (Inr m, d1) \<Rightarrow>
                (case get_product (product m) d1 of
                   None \<Rightarrow> (Render ''inventory/movement_form.html'' [DoesNotExist], d)
                 | Some p \<Rightarrow>
                     (case create_alert_if_low p now d1 of
                        (Inl e, _) \<Rightarrow> (Render ''inventory/movement_form.html'' [e], d)
                      | (Inr _, d2) \<Rightarrow> (Redirect ''movement_list'', d2))))
         else (Render ''inventory/movement_form.html'' (form_errors f d), d))
      else (Render ''inventory/movement_form.html'' [], d))"

section \<open>csv\_import (views.py, lines 248-321)\<close>

text \<open>
  A row of \<open>csv.DictReader\<close> is the list of its (header, value) pairs.  Python's \<open>int\<close> and
  \<open>float\<close> on a string are parameters \<open>to_int\<close> and \<open>to_float\<close> (\<open>None\<close> where they raise
  \<open>ValueError\<close>; \<open>to_float\<close> gives the decimal the price column then stores).
\<close>

type_synonym csv_row = "(string \<times> string) list"

definition row_item :: "csv_row \<Rightarrow> string \<Rightarrow> error + string" where
  "row_item row key = (case map_of row key of None \<Rightarrow> Inl (KeyError key) | Some v \<Rightarrow> Inr v)"

definition row_int :: "(string \<Rightarrow> int option) \<Rightarrow> csv_row \<Rightarrow> string \<Rightarrow> int \<Rightarrow> error + int" where
  "row_int to_int row key dflt =
     (case map_of row key of
        None \<Rightarrow> Inr dflt
      | Some v \<Rightarrow> (case to_int v of None \<Rightarrow> Inl (ValueError v) | Some i \<Rightarrow> Inr i))"

definition row_float :: "(string \<Rightarrow> decimal option) \<Rightarrow> csv_row \<Rightarrow> string \<Rightarrow> error + decimal" where
  "row_float to_float row key =
     (case map_of row key of
        None \<Rightarrow> Inl (KeyError key)
      | Some v \<Rightarrow> (case to_float v of None \<Rightarrow> Inl (ValueError v) | Some x \<Rightarrow> Inr x))"

definition and_then :: "error + 'a \<Rightarrow> ('a \<Rightarrow> error + 'b) \<Rightarrow> error + 'b" where
  "and_then r f = (case r of Inl e \<Rightarrow> Inl e | Inr x \<Rightarrow> f x)"

text \<open>\<open>Category.objects.get_or_create(name=...)\<close>; the name of a category is unique.\<close>

definition category_get_or_create :: "string \<Rightarrow> db \<Rightarrow> db" where
  "category_get_or_create n d =
     (if n \<in> set (categories d) then d else d\<lparr>categories := categories d @ [n]\<rparr>)"

text \<open>\<open>Supplier.objects.get_or_create(name=...)\<close>; several suppliers may share a name.\<close>

definition supplier_get_or_create :: "string \<Rightarrow> db \<Rightarrow> (error + unit) \<times> db" where
  "supplier_get_or_create n d =
     (case filter (\<lambda>s. s = n) (suppliers d) of
        [] \<Rightarrow> (Inr (), d\<lparr>suppliers := suppliers d @ [n]\<rparr>)
      | [s] \<Rightarrow> (Inr (), d)
      | _ \<Rightarrow> (Inl MultipleObjectsReturned, d))"

text \<open>
  The dictionary \<open>product_data\<close>, its entries evaluated in the order of the source, as a
  product whose key and code are still to be filled in.
\<close>

definition product_data ::
  "(string \<Rightarrow> int option) \<Rightarrow> (string \<Rightarrow> decimal option) \<Rightarrow> csv_row \<Rightarrow> string \<Rightarrow> string \<Rightarrow>
   error + product" where
  "product_data to_int to_float row c s =
     and_then (row_item row ''name'') (\<lambda>n.
     and_then (row_float to_float row ''unit_price'') (\<lambda>price.
     and_then (row_int to_int row ''minimum_stock'' 10) (\<lambda>mn.
     and_then (row_int to_int row ''maximum_stock'' 1000) (\<lambda>mx.
     and_then (row_int to_int row ''current_stock'' 0) (\<lambda>cur.
       Inr \<lparr>product_pk = 0, code = [], name = n,
            description = (case map_of row ''description'' of None \<Rightarrow> [] | Some v \<Rightarrow> v),
            category = c, supplier = s, unit_price = price, current_stock = cur,
            minimum_stock = mn, maximum_stock = mx, is_active = True\<rparr>)))))"

text \<open>
  \<open>Product.objects.update_or_create(code=..., defaults=product_data)\<close>: the product of that
  code gets every entry of the defaults and is saved; without one, a product is created
  from the code and the defaults.  The result tells whether it was created.
\<close>

definition update_or_create :: "string \<Rightarrow> product \<Rightarrow> db \<Rightarrow> (error + bool) \<times> db" where
  "update_or_create c pd d =
     (case filter (\<lambda>p. code p = c) (products d) of
        [] \<Rightarrow>
          (Inr True,
           d\<lparr>products := products d @
                [pd\<lparr>product_pk := next_pk (map product_pk (products d)), code := c\<rparr>]\<rparr>)
      | [p] \<Rightarrow>
          (Inr False,
           save_product
             (p\<lparr>name := name pd, description := description pd, category := category pd,
                supplier := supplier pd, unit_price := unit_price pd,
                minimum_stock := minimum_stock pd, maximum_stock := maximum_stock pd,
                current_stock := current_stock pd\<rparr>) d)
      | _ \<Rightarrow> (Inl MultipleObjectsReturned, d))"

text \<open>The body of the loop for one row (lines 265-296); an exception is caught per row.\<close>

definition import_row ::
  "(string \<Rightarrow> int option) \<Rightarrow> (string \<Rightarrow> decimal option) \<Rightarrow> csv_row \<Rightarrow> db \<Rightarrow> (error + bool) \<times> db" where
  "import_row to_int to_float row d =
     (case row_item row ''category'' of
        Inl e \<Rightarrow> (Inl e, d)
      | Inr c \<Rightarrow>
          (let d1 = category_get_or_create c d in
           case row_item row ''supplier'' of
             Inl e \<Rightarrow> (Inl e, d1)
           | Inr s \<Rightarrow>
               (case supplier_get_or_create s d1 of
                  (Inl e, d2) \<Rightarrow> (Inl e, d2)
                | (Inr _, d2) \<Rightarrow>
                    (case product_data to_int to_float row c s of
                       Inl e \<Rightarrow> (Inl e, d2)
                     | Inr pd \<Rightarrow>
                         (case row_item row ''code'' of
                            Inl e \<Rightarrow> (Inl e, d2)
                          | Inr cd \<Rightarrow> update_or_create cd pd d2)))))"

text \<open>
  The loop over the rows, numbered from 2, with the two counters and the list of errors
  (the row number with the exception).
\<close>

fun csv_import_loop ::
  "(string \<Rightarrow> int option) \<Rightarrow> (string \<Rightarrow> decimal option) \<Rightarrow> csv_row list \<Rightarrow> nat \<Rightarrow>
   nat \<times> nat \<times> (nat \<times> error) list \<Rightarrow> db \<Rightarrow> (nat \<times> nat \<times> (nat \<times> error) list) \<times> db" where
  "csv_import_loop to_int to_float [] row_num acc d = (acc, d)"
| "csv_import_loop to_int to_float (row # rows) row_num (created_count, updated_count, errors) d =
     (case import_row to_int to_float row d of
        (Inl e, d') \<Rightarrow>
          csv_import_loop to_int to_float rows (Suc row_num)
            (created_count, updated_count, errors @ [(row_num, e)]) d'
      | (Inr created, d') \<Rightarrow>
          csv_import_loop to_int to_float rows (Suc row_num)
            (if created then (created_count + 1, updated_count, errors)
             else (created_count, updated_count + 1, errors)) d')"

definition csv_import ::
  "(string \<Rightarrow> int option) \<Rightarrow> (string \<Rightarrow> decimal option) \<Rightarrow> csv_row list \<Rightarrow> db \<Rightarrow>
   (nat \<times> nat \<times> (nat \<times> error) list) \<times> db" where
  "csv_import to_int to_float rows d = csv_import_loop to_int to_float rows 2 (0, 0, []) d"

section \<open>Concrete states\<close>

text \<open>
  A product with balance 10 and minimum 5 in an otherwise empty database, and an unsaved
  movement of a given type, quantity and unit price on it.
\<close>

definition widget :: product where
  "widget = \<lparr>product_pk = 1, code = ''P1'', name = ''Widget'', description = [],
              category = ''Tools'', supplier = ''Acme'', unit_price = 5 / 2,
              current_stock = 10, minimum_stock = 5, maximum_stock = 100, is_active = True\<rparr>"

definition shop :: db where
  "shop = \<lparr>products = [widget], movements = [], alerts = [],
            categories = [''Tools''], suppliers = [''Acme''],
            integer_range = (Some (- 2147483648), Some 2147483647)\<rparr>"

definition movement_of :: "string \<Rightarrow> int \<Rightarrow> decimal option \<Rightarrow> stock_movement" where
  "movement_of t q price =
     \<lparr>movement_pk = None, product = 1, movement_type = t, quantity = q,
      movement_unit_price = price, total_value = None, reference = [], movement_notes = [],
      created_by = 1, created_at = 0, previous_stock = 0, new_stock = 0\<rparr>"

text \<open>
  The same database after an incoming movement of 3 at a unit price of 2 from balance 7
  has been recorded.
\<close>

definition recorded :: stock_movement where
  "recorded = \<lparr>movement_pk = Some 1, product = 1, movement_type = ''IN'', quantity = 3,
                movement_unit_price = Some 2, total_value = Some 6, reference = [],
                movement_notes = [], created_by = 1, created_at = 7, previous_stock = 7,
                new_stock = 10\<rparr>"

definition ledger :: db where
  "ledger = shop\<lparr>movements := [recorded]\<rparr>"

text \<open>
  The shop with an alert raised at balance 4 and resolved at time 8; with the same alert
  still open while the balance has gone down to 2; and with the product inactive.
\<close>

definition closed_alert :: low_stock_alert where
  "closed_alert = \<lparr>alert_pk = 1, alert_product = 1, alert_current_stock = 4,
                    alert_minimum_stock = 5, is_resolved = True, alert_created_at = 3,
                    resolved_at = Some 8\<rparr>"

definition open_alert :: low_stock_alert where
  "open_alert = \<lparr>alert_pk = 1, alert_product = 1, alert_current_stock = 4,
                  alert_minimum_stock = 5, is_resolved = False, alert_created_at = 3,
                  resolved_at = None\<rparr>"

definition low_shop :: db where
  "low_shop = \<lparr>products = [widget\<lparr>current_stock := 2\<rparr>], movements = [], alerts = [open_alert],
                categories = [''Tools''], suppliers = [''Acme''],
                integer_range = (Some (- 2147483648), Some 2147483647)\<rparr>"



text \<open>
  A CSV row for the product of code P1 with a stock column of 50, the same row with a stock
  column of -5, and \<open>int\<close> and \<open>float\<close> on the numerals the rows hold.
\<close>

definition stock_row :: csv_row where
  "stock_row = [(''code'', ''P1''), (''name'', ''Widget''), (''category'', ''Tools''),
                (''supplier'', ''Acme''), (''unit_price'', ''2.50''), (''current_stock'', ''50'')]"



definition int_of_numeral :: "string \<Rightarrow> int option" where
  "int_of_numeral v = (if v = ''50'' then Some 50 else if v = ''-5'' then Some (- 5) else None)"

definition float_of_numeral :: "string \<Rightarrow> decimal option" where
  "float_of_numeral v = (if v = ''2.50'' then Some (5 / 2) else None)"

section \<open>Properties of StockMovement.save\<close>

lemma get_product_save_product:
  "get_product k d = Some p \<Longrightarrow> product_pk p' = product_pk p \<Longrightarrow>
   get_product k (save_product p' d) = Some p'"
proof -
  assume g: "get_product k d = Some p" and e: "product_pk p' = product_pk p"
  have pk: "product_pk p = k"
    using g by (auto simp: get_product_def dest: find_Some_iff[THEN iffD1])
  have "find (\<lambda>r. product_pk r = k) (map (\<lambda>r. if product_pk r = k then p' else r) ps) = Some p'"
    if "find (\<lambda>r. product_pk r = k) ps = Some p" for ps
    using that e pk by (induction ps) (auto split: if_splits)
  then show ?thesis using g e pk by (simp add: get_product_def save_product_def)
qed

lemma fold_max_ge_init: "(a::nat) \<le> fold max ks a"
  by (induction ks arbitrary: a) (auto intro: order_trans[OF max.cobounded2])

lemma fold_max_ge_elem: "(k::nat) \<in> set ks \<Longrightarrow> k \<le> fold max ks a"
proof (induction ks arbitrary: a)
  case Nil
  then show ?case by simp
next
  case (Cons x xs)
  show ?case
  proof (cases "k = x")
    case True
    have "x \<le> max x a" by simp
    also have "\<dots> \<le> fold max xs (max x a)" by (rule fold_max_ge_init)
    finally show ?thesis using True by simp
  next
    case False
    with Cons.prems have "k \<in> set xs" by simp
    then show ?thesis using Cons.IH by simp
  qed
qed

lemma next_pk_fresh: "k \<in> set ks \<Longrightarrow> k \<noteq> next_pk ks"
  using fold_max_ge_elem[of k ks 0] by (auto simp: next_pk_def)

lemma movement_pk_in_keys: "r \<in> set ms \<Longrightarrow> movement_pk r = Some k \<Longrightarrow> k \<in> set (movement_keys ms)"
  by (auto simp: movement_keys_def intro!: bexI[of _ r])

lemma next_pk_not_in_table:
  "r \<in> set ms \<Longrightarrow> movement_pk r \<noteq> Some (next_pk (movement_keys ms))"
  using movement_pk_in_keys next_pk_fresh by blast

lemma update_new_stock_fresh:
  assumes "movement_pk m = Some (next_pk (movement_keys ms))" and "movements d = ms @ [m]"
  shows "update_new_stock (movement_pk m) (new_stock m) d = d"
proof -
  let ?f = "\<lambda>r. if movement_pk r = movement_pk m \<and> movement_pk m \<noteq> None
                 then r\<lparr>new_stock := new_stock m\<rparr> else r"
  have "map ?f ms = ms"
    using assms(1) next_pk_not_in_table by (intro map_idI) auto
  moreover have "?f m = m" by simp
  ultimately have "map ?f (movements d) = movements d"
    by (simp add: assms(2))
  then show ?thesis by (simp add: update_new_stock_def)
qed

lemma apply_to_product_missing:
  "get_product (product m) d = None \<Longrightarrow> apply_to_product m d = (Inl DoesNotExist, d)"
  by (simp add: apply_to_product_def)

lemma apply_to_product_insufficient:
  "get_product (product m) d = Some p \<Longrightarrow> movement_type m = ''OUT'' \<Longrightarrow> current_stock p < quantity m \<Longrightarrow>
   apply_to_product m d = (Inl (ValidationError ''Stock insuficiente''), d)"
  by (simp add: apply_to_product_def update_stock_def)

lemma apply_to_product_ok:
  assumes "get_product (product m) d = Some p"
    and "movement_type m = ''OUT'' \<longrightarrow> quantity m \<le> current_stock p"
    and "n = (if movement_type m = ''ADJ'' then quantity m
              else if movement_type m = ''IN'' then current_stock p + quantity m
              else if movement_type m = ''OUT'' then current_stock p - quantity m
              else current_stock p)"
  shows "apply_to_product m d =
           (Inr (m\<lparr>previous_stock := current_stock p, new_stock := n\<rparr>),
            save_product (p\<lparr>current_stock := n\<rparr>) d)"
  using assms by (auto simp: apply_to_product_def update_stock_def Let_def)


lemma save_invalid_type:
  "\<not> (movement_type m = ''IN'' \<or> movement_type m = ''OUT'' \<or> movement_type m = ''ADJ'') \<Longrightarrow>
   save m now d = (Inl (ValueError ''Tipo de movimiento no valido''), d)"
  by (simp add: save_def)

lemma save_new_missing:
  assumes "movement_pk m = None" and "get_product (product m) d = None"
    and "movement_type m = ''IN'' \<or> movement_type m = ''OUT'' \<or> movement_type m = ''ADJ''"
  shows "save m now d = (Inl DoesNotExist, d)"
proof -
  have "apply_to_product (m\<lparr>total_value := v\<rparr>) d = (Inl DoesNotExist, d)" for v
    using assms(2) by (simp add: apply_to_product_missing)
  moreover have "apply_to_product m d = (Inl DoesNotExist, d)"
    using assms(2) by (simp add: apply_to_product_missing)
  ultimately show ?thesis using assms(1,3) by (auto simp: save_def Let_def)
qed

lemma save_new_insufficient:
  assumes "movement_pk m = None" and "get_product (product m) d = Some p"
    and "movement_type m = ''OUT''" and "current_stock p < quantity m"
  shows "save m now d = (Inl (ValidationError ''Stock insuficiente''), d)"
proof -
  have "apply_to_product (m\<lparr>total_value := v\<rparr>) d = (Inl (ValidationError ''Stock insuficiente''), d)" for v
    using assms(2-4) by (simp add: apply_to_product_insufficient)
  moreover have "apply_to_product m d = (Inl (ValidationError ''Stock insuficiente''), d)"
    using assms(2-4) by (simp add: apply_to_product_insufficient)
  ultimately show ?thesis using assms(1,3) by (auto simp: save_def Let_def)
qed

lemma save_new_ok:
  assumes new: "movement_pk m = None" and p: "get_product (product m) d = Some p"
    and ty: "movement_type m = ''IN'' \<or> movement_type m = ''OUT'' \<or> movement_type m = ''ADJ''"
    and enough: "movement_type m = ''OUT'' \<longrightarrow> quantity m \<le> current_stock p"
    and n: "n = (if movement_type m = ''ADJ'' then quantity m
                 else if movement_type m = ''IN'' then current_stock p + quantity m
                 else current_stock p - quantity m)"
    and tv: "tv = (if truthy (movement_unit_price m) \<and> \<not> truthy (total_value m)
                   then Some (the (movement_unit_price m) * of_int (quantity m))
                   else total_value m)"
    and m': "m' = m\<lparr>movement_pk := Some (next_pk (movement_keys (movements d))),
                    total_value := tv, created_at := now,
                    previous_stock := current_stock p, new_stock := n\<rparr>"
  shows "save m now d =
           (Inr m', (save_product (p\<lparr>current_stock := n\<rparr>) d)\<lparr>movements := movements d @ [m']\<rparr>)"
proof -
  define m1 where "m1 = m\<lparr>total_value := tv\<rparr>"
  have m1: "(if truthy (movement_unit_price m) \<and> \<not> truthy (total_value m)
             then m\<lparr>total_value := Some (the (movement_unit_price m) * of_int (quantity m))\<rparr>
             else m) = m1"
    by (simp add: m1_def tv)
  have n1: "n = (if movement_type m1 = ''ADJ'' then quantity m1
              else if movement_type m1 = ''IN'' then current_stock p + quantity m1
              else if movement_type m1 = ''OUT'' then current_stock p - quantity m1
              else current_stock p)"
    using ty n by (auto simp: m1_def)
  have ap: "apply_to_product m1 d =
          (Inr (m1\<lparr>previous_stock := current_stock p, new_stock := n\<rparr>),
           save_product (p\<lparr>current_stock := n\<rparr>) d)"
    by (rule apply_to_product_ok) (use p enough n1 in \<open>simp_all add: m1_def\<close>)
  define d1 where "d1 = save_product (p\<lparr>current_stock := n\<rparr>) d"
  have mv: "movements d1 = movements d" by (simp add: d1_def save_product_def)
  have ss: "super_save (m1\<lparr>previous_stock := current_stock p, new_stock := n\<rparr>) now d1 =
          (m', d1\<lparr>movements := movements d @ [m']\<rparr>)"
    using new by (simp add: super_save_def Let_def mv m' m1_def)
  have un: "update_new_stock (movement_pk m') (new_stock m') (d1\<lparr>movements := movements d @ [m']\<rparr>)
          = d1\<lparr>movements := movements d @ [m']\<rparr>"
    by (rule update_new_stock_fresh[where ms = "movements d"]) (simp_all add: m')
  show ?thesis
    using ty new by (simp add: save_def Let_def m1 ap ss un d1_def[symmetric])
qed


text \<open>The four ways a save of a new instance ends.\<close>

lemma save_new_cases:
  assumes new: "movement_pk m = None"
  obtains
    (invalid) "save m now d = (Inl (ValueError ''Tipo de movimiento no valido''), d)"
      and "\<not> (movement_type m = ''IN'' \<or> movement_type m = ''OUT'' \<or> movement_type m = ''ADJ'')"
  | (missing) "save m now d = (Inl DoesNotExist, d)" and "get_product (product m) d = None"
  | (insufficient) p where "save m now d = (Inl (ValidationError ''Stock insuficiente''), d)"
      and "get_product (product m) d = Some p" and "movement_type m = ''OUT''"
      and "current_stock p < quantity m"
  | (ok) p n m' where "get_product (product m) d = Some p"
      and "movement_type m = ''IN'' \<or> movement_type m = ''OUT'' \<or> movement_type m = ''ADJ''"
      and "movement_type m = ''OUT'' \<longrightarrow> quantity m \<le> current_stock p"
      and "n = (if movement_type m = ''ADJ'' then quantity m
                else if movement_type m = ''IN'' then current_stock p + quantity m
                else current_stock p - quantity m)"
      and "m' = m\<lparr>movement_pk := Some (next_pk (movement_keys (movements d))),
                    total_value := (if truthy (movement_unit_price m) \<and> \<not> truthy (total_value m)
                                    then Some (the (movement_unit_price m) * of_int (quantity m))
                                    else total_value m),
                    created_at := now,
                    previous_stock := current_stock p, new_stock := n\<rparr>"
      and "save m now d =
             (Inr m', (save_product (p\<lparr>current_stock := n\<rparr>) d)\<lparr>movements := movements d @ [m']\<rparr>)"
proof (cases "movement_type m = ''IN'' \<or> movement_type m = ''OUT'' \<or> movement_type m = ''ADJ''")
  case False
  then show ?thesis using invalid save_invalid_type by blast
next
  case ty: True
  show ?thesis
  proof (cases "get_product (product m) d")
    case None
    then show ?thesis using missing save_new_missing[OF new None ty] by blast
  next
    case (Some p)
    show ?thesis
    proof (cases "movement_type m = ''OUT'' \<and> current_stock p < quantity m")
      case True
      then show ?thesis using insufficient[OF _ Some] save_new_insufficient[OF new Some] by blast
    next
      case False
      then have enough: "movement_type m = ''OUT'' \<longrightarrow> quantity m \<le> current_stock p" by auto
      show ?thesis
        by (rule ok[OF Some ty enough refl refl]) (rule save_new_ok[OF new Some ty enough refl refl refl])
    qed
  qed
qed

lemma products_save_product:
  "products (save_product p' d) = map (\<lambda>r. if product_pk r = product_pk p' then p' else r) (products d)"
  by (simp add: save_product_def)

lemma get_product_mem: "get_product k d = Some p \<Longrightarrow> p \<in> set (products d) \<and> product_pk p = k"
  by (auto simp: get_product_def find_Some_iff)

lemma get_product_movements_upd [simp]:
  "get_product k (d\<lparr>movements := ms\<rparr>) = get_product k d"
  by (simp add: get_product_def)

lemma update_new_stock_same:
  assumes "\<forall>r \<in> set (movements d). movement_pk r = Some k \<longrightarrow> new_stock r = n"
  shows "update_new_stock (Some k) n d = d"
proof -
  have "map (\<lambda>r. if movement_pk r = Some k \<and> Some k \<noteq> None then r\<lparr>new_stock := n\<rparr> else r)
          (movements d) = movements d"
    using assms by (intro map_idI) auto
  then show ?thesis by (simp add: update_new_stock_def)
qed

lemma save_existing:
  assumes pk: "movement_pk m = Some k"
    and ty: "movement_type m = ''IN'' \<or> movement_type m = ''OUT'' \<or> movement_type m = ''ADJ''"
    and m1: "m1 = m\<lparr>total_value := (if truthy (movement_unit_price m) \<and> \<not> truthy (total_value m)
                                     then Some (the (movement_unit_price m) * of_int (quantity m))
                                     else total_value m)\<rparr>"
  shows "save m now d =
           (if Some k \<in> set (map movement_pk (movements d))
            then (Inr m1, d\<lparr>movements := map (\<lambda>r. if movement_pk r = Some k then m1 else r)
                                               (movements d)\<rparr>)
            else (Inr (m1\<lparr>created_at := now\<rparr>),
                  d\<lparr>movements := movements d @ [m1\<lparr>created_at := now\<rparr>]\<rparr>))"
proof -
  have m1': "(if truthy (movement_unit_price m) \<and> \<not> truthy (total_value m)
             then m\<lparr>total_value := Some (the (movement_unit_price m) * of_int (quantity m))\<rparr>
             else m) = m1"
    by (simp add: m1)
  have pk1: "movement_pk m1 = Some k" by (simp add: m1 pk)
  show ?thesis
  proof (cases "Some k \<in> set (map movement_pk (movements d))")
    case True
    let ?d = "d\<lparr>movements := map (\<lambda>r. if movement_pk r = Some k then m1 else r) (movements d)\<rparr>"
    have ss: "super_save m1 now d = (m1, ?d)"
      using True pk1 by (simp add: super_save_def)
    have un: "update_new_stock (Some k) (new_stock m1) ?d = ?d"
      by (rule update_new_stock_same) auto
    show ?thesis
      using ty pk True by (simp add: save_def Let_def m1' ss pk1 un)
  next
    case False
    let ?m = "m1\<lparr>created_at := now\<rparr>"
    let ?d = "d\<lparr>movements := movements d @ [?m]\<rparr>"
    have ss: "super_save m1 now d = (?m, ?d)"
      using False pk1 by (simp add: super_save_def Let_def)
    have "\<forall>r \<in> set (movements d). movement_pk r \<noteq> Some k" using False by force
    then have un: "update_new_stock (Some k) (new_stock m1) ?d = ?d"
      by (intro update_new_stock_same) auto
    show ?thesis
      using ty pk False by (simp add: save_def Let_def m1' ss pk1 un)
  qed
qed




lemma save_existing_row:
  assumes "movement_pk m = Some k" and "fst (save m now d) = Inr m'"
  shows "previous_stock m' = previous_stock m \<and> new_stock m' = new_stock m
         \<and> quantity m' = quantity m \<and> movement_pk m' = Some k \<and> m' \<in> set (movements (snd (save m now d)))
         \<and> (\<forall>r \<in> set (movements (snd (save m now d))). movement_pk r = Some k \<longrightarrow> r = m')"
proof (cases "movement_type m = ''IN'' \<or> movement_type m = ''OUT'' \<or> movement_type m = ''ADJ''")
  case True
  note s = save_existing[OF assms(1) True refl, of now d]
  show ?thesis
  proof (cases "Some k \<in> set (map movement_pk (movements d))")
    case in_table: True
    then obtain r0 where r0: "r0 \<in> set (movements d)" "movement_pk r0 = Some k" by auto
    have m': "m' = m\<lparr>total_value := (if truthy (movement_unit_price m) \<and> \<not> truthy (total_value m)
                                     then Some (the (movement_unit_price m) * of_int (quantity m))
                                     else total_value m)\<rparr>"
      using assms(2) in_table unfolding s by simp
    have mv: "movements (snd (save m now d)) = map (\<lambda>r. if movement_pk r = Some k then m' else r) (movements d)"
      using in_table unfolding s m' by simp
    have a1: "previous_stock m' = previous_stock m" by (simp add: m')
    have a2: "new_stock m' = new_stock m" by (simp add: m')
    have a3: "quantity m' = quantity m" by (simp add: m')
    have a4: "movement_pk m' = Some k" using assms(1) by (simp add: m')
    have a5: "m' \<in> set (movements (snd (save m now d)))"
      unfolding mv using r0 by (auto simp: image_iff intro!: bexI[of _ r0])
    have a6: "\<forall>r \<in> set (movements (snd (save m now d))). movement_pk r = Some k \<longrightarrow> r = m'"
      unfolding mv by auto
    show ?thesis by (intro conjI a1 a2 a3 a4 a5 a6)
  next
    case not_in: False
    then have no: "\<forall>r \<in> set (movements d). movement_pk r \<noteq> Some k" by force
    have m': "m' = m\<lparr>total_value := (if truthy (movement_unit_price m) \<and> \<not> truthy (total_value m)
                                     then Some (the (movement_unit_price m) * of_int (quantity m))
                                     else total_value m), created_at := now\<rparr>"
      using assms(2) not_in unfolding s by simp
    have mv: "movements (snd (save m now d)) = movements d @ [m']"
      using not_in unfolding s m' by simp
    have a1: "previous_stock m' = previous_stock m" by (simp add: m')
    have a2: "new_stock m' = new_stock m" by (simp add: m')
    have a3: "quantity m' = quantity m" by (simp add: m')
    have a4: "movement_pk m' = Some k" using assms(1) by (simp add: m')
    have a5: "m' \<in> set (movements (snd (save m now d)))" unfolding mv by simp
    have a6: "\<forall>r \<in> set (movements (snd (save m now d))). movement_pk r = Some k \<longrightarrow> r = m'"
      unfolding mv using no by auto
    show ?thesis by (intro conjI a1 a2 a3 a4 a5 a6)
  qed
next
  case False
  then show ?thesis using assms(2) by (simp add: save_invalid_type)
qed



lemma save_total_value:
  assumes "fst (save m now d) = Inr m'"
  shows "total_value m' = (if truthy (movement_unit_price m) \<and> \<not> truthy (total_value m)
                           then Some (the (movement_unit_price m) * of_int (quantity m))
                           else total_value m)
         \<and> movement_unit_price m' = movement_unit_price m \<and> quantity m' = quantity m
         \<and> m' \<in> set (movements (snd (save m now d)))"
proof (cases "movement_pk m")
  case None
  then show ?thesis
  proof (cases rule: save_new_cases[where m = m and now = now and d = d])
    case (ok p n m'')
    have eq: "m' = m''" using assms unfolding ok(6) by simp
    have mv: "movements (snd (save m now d)) = movements d @ [m'']"
      unfolding ok(6) by (simp add: save_product_def)
    have a1: "total_value m'' = (if truthy (movement_unit_price m) \<and> \<not> truthy (total_value m)
                           then Some (the (movement_unit_price m) * of_int (quantity m))
                           else total_value m)" by (simp add: ok(5))
    have a2: "movement_unit_price m'' = movement_unit_price m" by (simp add: ok(5))
    have a3: "quantity m'' = quantity m" by (simp add: ok(5))
    have a4: "m'' \<in> set (movements (snd (save m now d)))" unfolding mv by simp
    show ?thesis unfolding eq by (intro conjI a1 a2 a3 a4)
  next
    case invalid
    then show ?thesis using assms by simp
  next
    case missing
    then show ?thesis using assms by simp
  next
    case (insufficient p)
    then show ?thesis using assms by simp
  qed
next
  case (Some k)
  show ?thesis
  proof (cases "movement_type m = ''IN'' \<or> movement_type m = ''OUT'' \<or> movement_type m = ''ADJ''")
    case True
    define m1 where "m1 = m\<lparr>total_value := (if truthy (movement_unit_price m) \<and> \<not> truthy (total_value m)
                                     then Some (the (movement_unit_price m) * of_int (quantity m))
                                     else total_value m)\<rparr>"
    note s = save_existing[OF Some True m1_def, of now d]
    note r = save_existing_row[OF Some assms]
    have a4: "m' \<in> set (movements (snd (save m now d)))" using r by (elim conjE)
    have a3: "quantity m' = quantity m" using r by (elim conjE)
    have m': "m' = m1 \<or> m' = m1\<lparr>created_at := now\<rparr>"
      using assms unfolding s by (auto split: if_splits)
    have t1: "total_value m1 = (if truthy (movement_unit_price m) \<and> \<not> truthy (total_value m)
                           then Some (the (movement_unit_price m) * of_int (quantity m))
                           else total_value m)"
      by (simp add: m1_def)
    have t2: "movement_unit_price m1 = movement_unit_price m" by (simp add: m1_def)
    have a1: "total_value m' = (if truthy (movement_unit_price m) \<and> \<not> truthy (total_value m)
                           then Some (the (movement_unit_price m) * of_int (quantity m))
                           else total_value m)"
      using m' t1 by (elim disjE) simp_all
    have a2: "movement_unit_price m' = movement_unit_price m"
      using m' t2 by (elim disjE) simp_all
    show ?thesis by (intro conjI a1 a2 a3 a4)
  next
    case False
    then show ?thesis using assms by (simp add: save_invalid_type)
  qed
qed

text \<open>A new movement with a quantity that is not negative keeps the balances from going negative.\<close>

lemma save_new_nonnegative:
  assumes "movement_pk m = None" and "0 \<le> quantity m" and "save m now d = (Inr m', d')"
    and inv: "\<forall>p \<in> set (products d). 0 \<le> current_stock p"
  shows "(\<forall>p \<in> set (products d'). 0 \<le> current_stock p)
         \<and> (\<exists>p'. get_product (product m) d' = Some p' \<and> 0 \<le> current_stock p')"
  using assms(1)
proof (cases rule: save_new_cases[where m = m and now = now and d = d])
  case (ok p n m'')
  then have d': "d' = (save_product (p\<lparr>current_stock := n\<rparr>) d)\<lparr>movements := movements d @ [m'']\<rparr>"
    using assms(3) by simp
  have "0 \<le> current_stock p" using get_product_mem[OF ok(1)] inv by blast
  then have n: "0 \<le> n" using ok(2,3) assms(2) by (auto simp: ok(4))
  have g: "get_product (product m) d' = Some (p\<lparr>current_stock := n\<rparr>)"
    using get_product_save_product[OF ok(1), of "p\<lparr>current_stock := n\<rparr>"] by (simp add: d')
  have "\<forall>r \<in> set (products d'). 0 \<le> current_stock r"
    using inv n by (auto simp: d' products_save_product)
  then show ?thesis using g n by auto
qed (use assms(3) in simp_all)

section \<open>Claims about the movement path\<close>

lemmas example_defs = widget_def shop_def movement_of_def recorded_def ledger_def

text \<open>Saving the recorded movement again with another quantity, as the admin's edit page does.\<close>

lemma save_recorded_edit:
  "save (recorded\<lparr>quantity := q\<rparr>) now ledger
   = (Inr (recorded\<lparr>quantity := q\<rparr>), ledger\<lparr>movements := [recorded\<lparr>quantity := q\<rparr>]\<rparr>)"
proof -
  let ?m = "recorded\<lparr>quantity := q\<rparr>"
  have pk: "movement_pk ?m = Some 1" by (simp add: recorded_def)
  have ty: "movement_type ?m = ''IN'' \<or> movement_type ?m = ''OUT'' \<or> movement_type ?m = ''ADJ''"
    by (simp add: recorded_def)
  have tv: "?m = ?m\<lparr>total_value := (if truthy (movement_unit_price ?m) \<and> \<not> truthy (total_value ?m)
                                     then Some (the (movement_unit_price ?m) * of_int (quantity ?m))
                                     else total_value ?m)\<rparr>"
    by (simp add: recorded_def truthy_def)
  have mv: "movements ledger = [recorded]" by (simp add: ledger_def)
  have pk0: "movement_pk recorded = Some 1" by (simp add: recorded_def)
  show ?thesis
    unfolding save_existing[OF pk ty tv, of now ledger] by (simp add: mv pk0)
qed




text \<open>
  C2.  An outgoing movement for more than the balance fails with the insufficient-stock
  error; the database that \<open>save\<close> leaves is the one it found, so the balance is unchanged
  and no movement row exists that did not exist before.
\<close>

theorem outbound_insufficient_stock:
  assumes "movement_pk m = None" and "movement_type m = ''OUT''"
    and "get_product (product m) d = Some p" and "current_stock p < quantity m"
  shows "save m now d = (Inl (ValidationError ''Stock insuficiente''), d)
         \<and> get_product (product m) (snd (save m now d)) = Some p
         \<and> movements (snd (save m now d)) = movements d"
  using assms by (simp add: save_new_insufficient)

theorem outbound_insufficient_stock_witness:
  "movement_pk (movement_of ''OUT'' 100 None) = None
   \<and> movement_type (movement_of ''OUT'' 100 None) = ''OUT''
   \<and> get_product (product (movement_of ''OUT'' 100 None)) shop = Some widget
   \<and> current_stock widget < quantity (movement_of ''OUT'' 100 None)
   \<and> save (movement_of ''OUT'' 100 None) 7 shop = (Inl (ValidationError ''Stock insuficiente''), shop)
   \<and> get_product (product (movement_of ''OUT'' 100 None)) (snd (save (movement_of ''OUT'' 100 None) 7 shop))
       = Some widget
   \<and> movements (snd (save (movement_of ''OUT'' 100 None) 7 shop)) = movements shop"
proof -
  have h1: "movement_pk (movement_of ''OUT'' 100 None) = None" by (simp add: example_defs)
  have h2: "movement_type (movement_of ''OUT'' 100 None) = ''OUT''" by (simp add: example_defs)
  have h3: "get_product (product (movement_of ''OUT'' 100 None)) shop = Some widget"
    by (simp add: example_defs get_product_def)
  have h4: "current_stock widget < quantity (movement_of ''OUT'' 100 None)"
    by (simp add: example_defs)
  note c = outbound_insufficient_stock[OF h1 h2 h3 h4, of 7]
  show ?thesis
    by (rule conjI[OF h1], rule conjI[OF h2], rule conjI[OF h3], rule conjI[OF h4], rule c)
qed




section \<open>Claims about rows of the ledger\<close>




text \<open>
  C8, as the code has it.  For a movement that commits with a unit price that is not zero
  and no total value set before (none, or zero), the row's \<open>total_value\<close> is the unit
  price times the quantity; a total value that is already set is kept; without a unit
  price the total value stays what it was (none for a movement that comes from the form).
\<close>

theorem total_value_of_saved_movement:
  assumes "fst (save m now d) = Inr m'"
  shows "(\<forall>u. movement_unit_price m = Some u \<and> u \<noteq> 0 \<and> \<not> truthy (total_value m)
              \<longrightarrow> total_value m' = Some (u * of_int (quantity m)))
         \<and> (truthy (total_value m) \<longrightarrow> total_value m' = total_value m)
         \<and> (movement_unit_price m = None \<longrightarrow> total_value m' = total_value m)
         \<and> movement_unit_price m' = movement_unit_price m \<and> quantity m' = quantity m
         \<and> m' \<in> set (movements (snd (save m now d)))"
proof -
  note t = save_total_value[OF assms]
  have tv: "total_value m' = (if truthy (movement_unit_price m) \<and> \<not> truthy (total_value m)
                           then Some (the (movement_unit_price m) * of_int (quantity m))
                           else total_value m)"
    using t by (elim conjE)
  have a1: "\<forall>u. movement_unit_price m = Some u \<and> u \<noteq> 0 \<and> \<not> truthy (total_value m)
              \<longrightarrow> total_value m' = Some (u * of_int (quantity m))"
    unfolding tv by (simp add: truthy_def)
  have a2: "truthy (total_value m) \<longrightarrow> total_value m' = total_value m"
    unfolding tv by simp
  have a3: "movement_unit_price m = None \<longrightarrow> total_value m' = total_value m"
    unfolding tv by (simp add: truthy_def)
  have a4: "movement_unit_price m' = movement_unit_price m" using t by (elim conjE)
  have a5: "quantity m' = quantity m" using t by (elim conjE)
  have a6: "m' \<in> set (movements (snd (save m now d)))" using t by (elim conjE)
  show ?thesis by (intro conjI a1 a2 a3 a4 a5 a6)
qed

theorem total_value_of_saved_movement_witness:
  "\<exists>m'. fst (save (movement_of ''IN'' 3 (Some (5 / 2))) 7 shop) = Inr m'
        \<and> total_value m' = Some (15 / 2)
        \<and> m' \<in> set (movements (snd (save (movement_of ''IN'' 3 (Some (5 / 2))) 7 shop)))"
proof -
  let ?m = "movement_of ''IN'' 3 (Some (5 / 2))"
  have h1: "movement_pk ?m = None" by (simp add: example_defs)
  have g: "get_product (product ?m) shop = Some widget"
    by (simp add: example_defs get_product_def)
  have ty: "movement_type ?m = ''IN'' \<or> movement_type ?m = ''OUT'' \<or> movement_type ?m = ''ADJ''"
    by (simp add: example_defs)
  have en: "movement_type ?m = ''OUT'' \<longrightarrow> quantity ?m \<le> current_stock widget"
    by (simp add: example_defs)
  have "\<exists>m'. fst (save ?m 7 shop) = Inr m'"
    unfolding save_new_ok[OF h1 g ty en refl refl refl] by simp
  then obtain m' where s: "fst (save ?m 7 shop) = Inr m'" ..
  note t = total_value_of_saved_movement[OF s]
  have f: "movement_unit_price ?m = Some (5 / 2)" "quantity ?m = 3" "\<not> truthy (total_value ?m)"
    by (simp_all add: example_defs truthy_def)
  have "movement_unit_price ?m = Some (5 / 2) \<and> (5 / 2 :: rat) \<noteq> 0 \<and> \<not> truthy (total_value ?m)
        \<longrightarrow> total_value m' = Some (5 / 2 * of_int (quantity ?m))"
    using t by blast
  then have a: "total_value m' = Some (15 / 2)" using f by simp
  have b: "m' \<in> set (movements (snd (save ?m 7 shop)))" using t by (elim conjE)
  show ?thesis by (rule exI[of _ m'], intro conjI s a b)
qed

text \<open>
  C8 as the specification states it fails: the recorded movement (unit price 2, total 6)
  saved again with quantity 4 commits with the total still 6, not 8; and a new movement of
  4 at unit price 2 that comes with a total of 6 commits with the total 6.
\<close>

theorem stale_total_value_counterexample:
  "save (recorded\<lparr>quantity := 4\<rparr>) 9 ledger
     = (Inr (recorded\<lparr>quantity := 4\<rparr>), ledger\<lparr>movements := [recorded\<lparr>quantity := 4\<rparr>]\<rparr>)
   \<and> movement_unit_price (recorded\<lparr>quantity := 4\<rparr>) = Some 2
   \<and> quantity (recorded\<lparr>quantity := 4\<rparr>) = 4
   \<and> total_value (recorded\<lparr>quantity := 4\<rparr>) = Some 6
   \<and> total_value (recorded\<lparr>quantity := 4\<rparr>) \<noteq> Some (2 * of_int 4)
   \<and> (\<exists>m'. fst (save ((movement_of ''IN'' 4 (Some 2))\<lparr>total_value := Some 6\<rparr>) 7 shop) = Inr m'
          \<and> m' \<in> set (movements (snd (save ((movement_of ''IN'' 4 (Some 2))\<lparr>total_value := Some 6\<rparr>)
                                       7 shop)))
          \<and> movement_unit_price m' = Some 2 \<and> quantity m' = 4 \<and> total_value m' = Some 6)"
proof -
  let ?m = "(movement_of ''IN'' 4 (Some 2))\<lparr>total_value := Some 6\<rparr>"
  have h1: "movement_pk ?m = None" by (simp add: movement_of_def)
  have g: "get_product (product ?m) shop = Some widget"
    by (simp add: example_defs get_product_def)
  have ty: "movement_type ?m = ''IN'' \<or> movement_type ?m = ''OUT'' \<or> movement_type ?m = ''ADJ''"
    by (simp add: movement_of_def)
  have en: "movement_type ?m = ''OUT'' \<longrightarrow> quantity ?m \<le> current_stock widget"
    by (simp add: movement_of_def)
  have "\<exists>m'. fst (save ?m 7 shop) = Inr m'"
    unfolding save_new_ok[OF h1 g ty en refl refl refl] by simp
  then obtain m' where s: "fst (save ?m 7 shop) = Inr m'" ..
  note t = save_total_value[OF s]
  have tv: "total_value m' = (if truthy (movement_unit_price ?m) \<and> \<not> truthy (total_value ?m)
                           then Some (the (movement_unit_price ?m) * of_int (quantity ?m))
                           else total_value ?m)"
    using t by (elim conjE)
  have b1: "total_value m' = Some 6" unfolding tv by (simp add: movement_of_def truthy_def)
  have "movement_unit_price m' = movement_unit_price ?m" using t by (elim conjE)
  then have b2: "movement_unit_price m' = Some 2" by (simp add: movement_of_def)
  have "quantity m' = quantity ?m" using t by (elim conjE)
  then have b3: "quantity m' = 4" by (simp add: movement_of_def)
  have b4: "m' \<in> set (movements (snd (save ?m 7 shop)))" using t by (elim conjE)
  have new: "\<exists>m'. fst (save ?m 7 shop) = Inr m'
          \<and> m' \<in> set (movements (snd (save ?m 7 shop)))
          \<and> movement_unit_price m' = Some 2 \<and> quantity m' = 4 \<and> total_value m' = Some 6"
    by (rule exI[of _ m'], intro conjI s b4 b2 b3 b1)
  have old: "movement_unit_price (recorded\<lparr>quantity := 4\<rparr>) = Some 2"
    "quantity (recorded\<lparr>quantity := 4\<rparr>) = 4"
    "total_value (recorded\<lparr>quantity := 4\<rparr>) = Some 6"
    "total_value (recorded\<lparr>quantity := 4\<rparr>) \<noteq> Some (2 * of_int 4)"
    by (simp_all add: recorded_def)
  show ?thesis by (intro conjI save_recorded_edit old new)
qed

text \<open>
  A unit price of zero is supplied and valid (\<open>MinValueValidator(0.00)\<close>), yet counts as
  false in \<open>if self.unit_price\<close>: the total value stays unset instead of becoming zero.
\<close>

lemma zero_unit_price_total_value:
  "\<exists>m'. fst (save (movement_of ''IN'' 3 (Some 0)) 7 shop) = Inr m' \<and> total_value m' = None"
proof -
  let ?m = "movement_of ''IN'' 3 (Some 0)"
  have h1: "movement_pk ?m = None" by (simp add: movement_of_def)
  have g: "get_product (product ?m) shop = Some widget"
    by (simp add: example_defs get_product_def)
  have ty: "movement_type ?m = ''IN'' \<or> movement_type ?m = ''OUT'' \<or> movement_type ?m = ''ADJ''"
    by (simp add: movement_of_def)
  have en: "movement_type ?m = ''OUT'' \<longrightarrow> quantity ?m \<le> current_stock widget"
    by (simp add: movement_of_def)
  have "\<exists>m'. fst (save ?m 7 shop) = Inr m'"
    unfolding save_new_ok[OF h1 g ty en refl refl refl] by simp
  then obtain m' where s: "fst (save ?m 7 shop) = Inr m'" ..
  have "total_value m' = (if truthy (movement_unit_price ?m) \<and> \<not> truthy (total_value ?m)
                           then Some (the (movement_unit_price ?m) * of_int (quantity ?m))
                           else total_value ?m)"
    using save_total_value[OF s] by (elim conjE)
  also have "\<dots> = None" by (simp add: movement_of_def truthy_def)
  finally show ?thesis using s by blast
qed

section \<open>Claims about alerts\<close>

lemma resolve_alert_found:
  assumes "find (\<lambda>a. alert_pk a = k) (alerts d) = Some a"
  shows "resolve_alert ''POST'' k now d =
           (Inr (), d\<lparr>alerts := map (\<lambda>x. if alert_pk x = k
                                           then a\<lparr>is_resolved := True, resolved_at := Some now\<rparr>
                                           else x) (alerts d)\<rparr>)"
  using assms by (simp add: resolve_alert_def Let_def)

lemma find_alert_pk: "find (\<lambda>a. alert_pk a = k) xs = Some a \<Longrightarrow> alert_pk a = k"
  by (induction xs) (auto split: if_splits)

lemma find_map_replace:
  assumes "find (\<lambda>a. alert_pk a = k) xs = Some a" and "alert_pk b = k"
  shows "find (\<lambda>a. alert_pk a = k) (map (\<lambda>x. if alert_pk x = k then b else x) xs) = Some b"
  using assms by (induction xs) (auto split: if_splits)

lemma filter_map_replace:
  "alert_pk b = k \<Longrightarrow>
   filter (\<lambda>x. alert_pk x \<noteq> k) (map (\<lambda>x. if alert_pk x = k then b else x) xs)
   = filter (\<lambda>x. alert_pk x \<noteq> k) xs"
  by (induction xs) auto

lemma map_replace_twice:
  "alert_pk b = k \<Longrightarrow>
   map (\<lambda>x. if alert_pk x = k then c else x) (map (\<lambda>x. if alert_pk x = k then b else x) xs)
   = map (\<lambda>x. if alert_pk x = k then c else x) xs"
  by (induction xs) auto

text \<open>
  C5, as the code has it.  Resolving an alert that exists succeeds, sets its flag and sets
  its resolved timestamp to the time of the call, whatever the alert held before; the
  other alerts, the products and the ledger are untouched.  Resolving again at a later
  time gives the state that resolving once at the later time gives: the flag stays set
  and the timestamp is the later one.
\<close>

theorem resolve_alert_overwrites_timestamp:
  assumes f: "find (\<lambda>a. alert_pk a = k) (alerts d) = Some a"
  shows "fst (resolve_alert ''POST'' k now d) = Inr ()
         \<and> find (\<lambda>a. alert_pk a = k) (alerts (snd (resolve_alert ''POST'' k now d)))
             = Some (a\<lparr>is_resolved := True, resolved_at := Some now\<rparr>)
         \<and> filter (\<lambda>x. alert_pk x \<noteq> k) (alerts (snd (resolve_alert ''POST'' k now d)))
             = filter (\<lambda>x. alert_pk x \<noteq> k) (alerts d)
         \<and> products (snd (resolve_alert ''POST'' k now d)) = products d
         \<and> movements (snd (resolve_alert ''POST'' k now d)) = movements d
         \<and> resolve_alert ''POST'' k later (snd (resolve_alert ''POST'' k now d))
             = resolve_alert ''POST'' k later d"
proof -
  let ?a = "a\<lparr>is_resolved := True, resolved_at := Some now\<rparr>"
  let ?d = "d\<lparr>alerts := map (\<lambda>x. if alert_pk x = k then ?a else x) (alerts d)\<rparr>"
  have r: "resolve_alert ''POST'' k now d = (Inr (), ?d)" by (rule resolve_alert_found[OF f])
  have pk: "alert_pk ?a = k" using find_alert_pk[OF f] by simp
  have a1: "fst (resolve_alert ''POST'' k now d) = Inr ()" unfolding r by simp
  have f': "find (\<lambda>a. alert_pk a = k) (alerts ?d) = Some ?a"
    using find_map_replace[OF f pk] by simp
  have a2: "find (\<lambda>a. alert_pk a = k) (alerts (snd (resolve_alert ''POST'' k now d))) = Some ?a"
    unfolding r using f' by simp
  have a3: "filter (\<lambda>x. alert_pk x \<noteq> k) (alerts (snd (resolve_alert ''POST'' k now d)))
             = filter (\<lambda>x. alert_pk x \<noteq> k) (alerts d)"
    unfolding r using filter_map_replace[OF pk] by simp
  have a4: "products (snd (resolve_alert ''POST'' k now d)) = products d" unfolding r by simp
  have a5: "movements (snd (resolve_alert ''POST'' k now d)) = movements d" unfolding r by simp
  have "resolve_alert ''POST'' k later ?d = resolve_alert ''POST'' k later d"
    unfolding resolve_alert_found[OF f'] resolve_alert_found[OF f]
    using map_replace_twice[OF pk] by simp
  then have a6: "resolve_alert ''POST'' k later (snd (resolve_alert ''POST'' k now d))
             = resolve_alert ''POST'' k later d"
    unfolding r by simp
  show ?thesis by (intro conjI a1 a2 a3 a4 a5 a6)
qed

theorem resolve_alert_overwrites_timestamp_witness:
  "find (\<lambda>a. alert_pk a = 1) (alerts low_shop) = Some open_alert
   \<and> fst (resolve_alert ''POST'' 1 8 low_shop) = Inr ()
   \<and> find (\<lambda>a. alert_pk a = 1) (alerts (snd (resolve_alert ''POST'' 1 8 low_shop)))
       = Some closed_alert"
proof -
  have f: "find (\<lambda>a. alert_pk a = 1) (alerts low_shop) = Some open_alert"
    by (simp add: low_shop_def open_alert_def)
  note t = resolve_alert_overwrites_timestamp[OF f, of 8 0]
  have e: "open_alert\<lparr>is_resolved := True, resolved_at := Some 8\<rparr> = closed_alert"
    by (simp add: open_alert_def closed_alert_def)
  show ?thesis
    by (intro conjI f t[THEN conjunct1] t[THEN conjunct2, THEN conjunct1, unfolded e])
qed

text \<open>
  C5 as the specification states it fails: an alert resolved at time 8 and resolved again
  at time 20 has the resolved timestamp 20.
\<close>

theorem resolve_alert_twice_counterexample:
  "map is_resolved (alerts (low_shop\<lparr>alerts := [closed_alert]\<rparr>)) = [True]
   \<and> map resolved_at (alerts (low_shop\<lparr>alerts := [closed_alert]\<rparr>)) = [Some 8]
   \<and> fst (resolve_alert ''POST'' 1 20 (low_shop\<lparr>alerts := [closed_alert]\<rparr>)) = Inr ()
   \<and> map resolved_at (alerts (snd (resolve_alert ''POST'' 1 20 (low_shop\<lparr>alerts := [closed_alert]\<rparr>))))
       = [Some 20]"
  by (simp add: resolve_alert_def closed_alert_def Let_def)

text \<open>The admin action does the same.\<close>

lemma mark_as_resolved_overwrites:
  "map resolved_at (alerts (snd (mark_as_resolved [1] 20 (low_shop\<lparr>alerts := [closed_alert]\<rparr>))))
   = [Some 20]"
  by (simp add: mark_as_resolved_def closed_alert_def)

text \<open>The alert that \<open>get_or_create\<close> creates from the defaults.\<close>

lemma alert_get_or_create_none:
  assumes "unresolved_alerts (product_pk p) d = []"
    and "a = \<lparr>alert_pk = next_pk (map alert_pk (alerts d)), alert_product = product_pk p,
              alert_current_stock = current_stock p, alert_minimum_stock = minimum_stock p,
              is_resolved = False, alert_created_at = now, resolved_at = None\<rparr>"
  shows "alert_get_or_create p now d = (Inr (a, True), d\<lparr>alerts := alerts d @ [a]\<rparr>)"
  using assms by (simp add: alert_get_or_create_def Let_def)

lemma alert_get_or_create_one:
  "unresolved_alerts (product_pk p) d = [a] \<Longrightarrow> alert_get_or_create p now d = (Inr (a, False), d)"
  by (simp add: alert_get_or_create_def)

lemma alert_get_or_create_unchanged:
  "unresolved_alerts (product_pk p) d \<noteq> [] \<Longrightarrow> snd (alert_get_or_create p now d) = d"
  by (auto simp: alert_get_or_create_def split: list.splits)

lemma create_alert_if_low_unchanged:
  "unresolved_alerts (product_pk p) d \<noteq> [] \<Longrightarrow> snd (create_alert_if_low p now d) = d"
  using alert_get_or_create_unchanged[of p d now]
  by (cases "alert_get_or_create p now d") (auto simp: create_alert_if_low_def split: sum.splits)

lemma alert_get_or_create_appends:
  "\<exists>new. alerts (snd (alert_get_or_create p now d)) = alerts d @ new
         \<and> products (snd (alert_get_or_create p now d)) = products d
         \<and> movements (snd (alert_get_or_create p now d)) = movements d"
  by (auto simp: alert_get_or_create_def Let_def split: list.splits)

text \<open>
  C10.  When the product already has an unresolved alert, \<open>get_or_create\<close> and the block of
  the view that calls it leave the whole database as it is, so the alert keeps the balance
  and the minimum it was created with, whatever the product's balance is now.  The sweep
  command changes no alert that exists either.
\<close>

theorem existing_alert_snapshot_kept:
  "(unresolved_alerts (product_pk p) d \<noteq> [] \<longrightarrow>
      snd (alert_get_or_create p now d) = d \<and> snd (create_alert_if_low p now d) = d)
   \<and> (\<exists>new. alerts (snd (handle now d)) = alerts d @ new)"
proof (intro conjI impI)
  assume u: "unresolved_alerts (product_pk p) d \<noteq> []"
  show "snd (alert_get_or_create p now d) = d" by (rule alert_get_or_create_unchanged[OF u])
  show "snd (create_alert_if_low p now d) = d" by (rule create_alert_if_low_unchanged[OF u])
next
  show "\<exists>new. alerts (snd (handle now d)) = alerts d @ new"
    unfolding handle_def by simp
qed

theorem existing_alert_snapshot_kept_witness:
  "unresolved_alerts (product_pk (widget\<lparr>current_stock := 2\<rparr>)) low_shop = [open_alert]
   \<and> current_stock (widget\<lparr>current_stock := 2\<rparr>) = 2
   \<and> alerts (snd (create_alert_if_low (widget\<lparr>current_stock := 2\<rparr>) 9 low_shop)) = [open_alert]
   \<and> alert_current_stock open_alert = 4"
proof -
  let ?p = "widget\<lparr>current_stock := 2\<rparr>"
  have u: "unresolved_alerts (product_pk ?p) low_shop = [open_alert]"
    by (simp add: unresolved_alerts_def low_shop_def open_alert_def widget_def)
  then have ne: "unresolved_alerts (product_pk ?p) low_shop \<noteq> []" by simp
  note t = existing_alert_snapshot_kept[where p = ?p and d = low_shop and now = 9,
      THEN conjunct1, THEN mp, OF ne, THEN conjunct2]
  have a: "alerts (snd (create_alert_if_low ?p 9 low_shop)) = [open_alert]"
    unfolding t by (simp add: low_shop_def)
  have b: "current_stock ?p = 2" by simp
  have c: "alert_current_stock open_alert = 4" by (simp add: open_alert_def)
  show ?thesis by (intro conjI u b a c)
qed

lemma unresolved_alerts_append:
  "unresolved_alerts k (d\<lparr>alerts := alerts d @ [a]\<rparr>)
   = unresolved_alerts k d @ (if alert_product a = k \<and> is_resolved a = False then [a] else [])"
  by (simp add: unresolved_alerts_def)

lemma alert_get_or_create_invariant:
  assumes inv: "\<forall>k. length (unresolved_alerts k d) \<le> 1"
  shows "\<exists>a created d1. alert_get_or_create p now d = (Inr (a, created), d1)
           \<and> (\<forall>k. length (unresolved_alerts k d1) \<le> 1)
           \<and> unresolved_alerts (product_pk p) d1 = [a]
           \<and> (\<forall>k. unresolved_alerts k d \<noteq> [] \<longrightarrow> unresolved_alerts k d1 = unresolved_alerts k d)
           \<and> (created \<longrightarrow> unresolved_alerts (product_pk p) d = [] \<and> alerts d1 = alerts d @ [a])
           \<and> (\<not> created \<longrightarrow> d1 = d)
           \<and> products d1 = products d"
proof (cases "unresolved_alerts (product_pk p) d")
  case Nil
  define a where "a = \<lparr>alert_pk = next_pk (map alert_pk (alerts d)), alert_product = product_pk p,
              alert_current_stock = current_stock p, alert_minimum_stock = minimum_stock p,
              is_resolved = False, alert_created_at = now, resolved_at = None\<rparr>"
  define d1 where "d1 = d\<lparr>alerts := alerts d @ [a]\<rparr>"
  have g: "alert_get_or_create p now d = (Inr (a, True), d1)"
    unfolding d1_def by (rule alert_get_or_create_none[OF Nil a_def])
  have ap: "alert_product a = product_pk p" "is_resolved a = False" by (simp_all add: a_def)
  have u: "unresolved_alerts k d1
           = unresolved_alerts k d @ (if product_pk p = k then [a] else [])" for k
    unfolding d1_def unresolved_alerts_append using ap by simp
  have i1: "\<forall>k. length (unresolved_alerts k d1) \<le> 1"
  proof
    fix k show "length (unresolved_alerts k d1) \<le> 1"
      using inv[rule_format, of k] Nil by (cases "product_pk p = k") (simp_all add: u)
  qed
  have i2: "unresolved_alerts (product_pk p) d1 = [a]" by (simp add: u Nil)
  have i3: "\<forall>k. unresolved_alerts k d \<noteq> [] \<longrightarrow> unresolved_alerts k d1 = unresolved_alerts k d"
  proof (intro allI impI)
    fix k assume "unresolved_alerts k d \<noteq> []"
    then have "product_pk p \<noteq> k" using Nil by auto
    then show "unresolved_alerts k d1 = unresolved_alerts k d" by (simp add: u)
  qed
  have i4: "True \<longrightarrow> unresolved_alerts (product_pk p) d = [] \<and> alerts d1 = alerts d @ [a]"
    using Nil by (simp add: d1_def)
  have i5: "\<not> True \<longrightarrow> d1 = d" by simp
  have i6: "products d1 = products d" by (simp add: d1_def)
  show ?thesis
    by (rule exI[of _ a], rule exI[of _ True], rule exI[of _ d1], intro conjI g i1 i2 i3 i4 i5 i6)
next
  case (Cons a rest)
  have "length (unresolved_alerts (product_pk p) d) \<le> 1" using inv by blast
  then have one: "unresolved_alerts (product_pk p) d = [a]" using Cons by simp
  have g: "alert_get_or_create p now d = (Inr (a, False), d)"
    by (rule alert_get_or_create_one[OF one])
  have i3: "\<forall>k. unresolved_alerts k d \<noteq> [] \<longrightarrow> unresolved_alerts k d = unresolved_alerts k d"
    by simp
  have i4: "False \<longrightarrow> unresolved_alerts (product_pk p) d = [] \<and> alerts d = alerts d @ [a]" by simp
  have i5: "\<not> False \<longrightarrow> d = d" by simp
  show ?thesis
    by (rule exI[of _ a], rule exI[of _ False], rule exI[of _ d], intro conjI g inv one i3 i4 i5 refl)
qed


lemma create_alert_if_low_twice:
  assumes inv: "\<forall>k. length (unresolved_alerts k d) \<le> 1"
  shows "\<exists>d1. create_alert_if_low p t1 d = (Inr (), d1)
           \<and> create_alert_if_low p t2 d1 = (Inr (), d1)
           \<and> (\<forall>k. length (unresolved_alerts k d1) \<le> 1)
           \<and> (is_low_stock p \<longrightarrow> length (unresolved_alerts (product_pk p) d1) = 1)
           \<and> (unresolved_alerts (product_pk p) d \<noteq> [] \<longrightarrow> d1 = d)
           \<and> length (alerts d1) \<le> length (alerts d) + 1"
proof (cases "is_low_stock p")
  case False
  have a: "create_alert_if_low p t d = (Inr (), d)" for t
    using False by (simp add: create_alert_if_low_def)
  have c: "is_low_stock p \<longrightarrow> length (unresolved_alerts (product_pk p) d) = 1" using False by simp
  have e: "unresolved_alerts (product_pk p) d \<noteq> [] \<longrightarrow> d = d" by simp
  have f: "length (alerts d) \<le> length (alerts d) + 1" by simp
  show ?thesis by (rule exI[of _ d], intro conjI a inv c e f)
next
  case True
  obtain a created d1 where g: "alert_get_or_create p t1 d = (Inr (a, created), d1)"
    and inv1: "\<forall>k. length (unresolved_alerts k d1) \<le> 1"
    and one1: "unresolved_alerts (product_pk p) d1 = [a]"
    and cr: "created \<longrightarrow> unresolved_alerts (product_pk p) d = [] \<and> alerts d1 = alerts d @ [a]"
    and ncr: "\<not> created \<longrightarrow> d1 = d"
    using alert_get_or_create_invariant[OF inv, of p t1] by blast
  have a1: "create_alert_if_low p t1 d = (Inr (), d1)"
    using True g by (simp add: create_alert_if_low_def)
  have g2: "alert_get_or_create p t2 d1 = (Inr (a, False), d1)"
    by (rule alert_get_or_create_one[OF one1])
  have a2: "create_alert_if_low p t2 d1 = (Inr (), d1)"
    using True g2 by (simp add: create_alert_if_low_def)
  have c: "is_low_stock p \<longrightarrow> length (unresolved_alerts (product_pk p) d1) = 1"
    using one1 by simp
  have e: "unresolved_alerts (product_pk p) d \<noteq> [] \<longrightarrow> d1 = d"
    using cr ncr by blast
  have f: "length (alerts d1) \<le> length (alerts d) + 1"
  proof (cases created)
    case True
    then have "alerts d1 = alerts d @ [a]" using cr by blast
    then show ?thesis by simp
  next
    case False
    then have "d1 = d" using ncr by blast
    then show ?thesis by simp
  qed
  show ?thesis by (rule exI[of _ d1], intro conjI a1 a2 inv1 c e f)
qed

lemma resolve_alert_invariant:
  assumes inv: "\<forall>k. length (unresolved_alerts k d) \<le> 1"
  shows "length (unresolved_alerts k' (snd (resolve_alert method k now d))) \<le> 1"
proof -
  have sub: "length (filter P (map (\<lambda>x. if alert_pk x = k then b else x) xs)) \<le> length (filter P xs)"
    if "\<not> P b" for P :: "low_stock_alert \<Rightarrow> bool" and b xs
    using that by (induction xs) auto
  show ?thesis
  proof (cases "method = ''POST''")
    case False
    then show ?thesis using inv by (simp add: resolve_alert_def)
  next
    case True
    show ?thesis
    proof (cases "find (\<lambda>a. alert_pk a = k) (alerts d)")
      case None
      then show ?thesis using inv True by (simp add: resolve_alert_def)
    next
      case (Some a)
      let ?b = "a\<lparr>is_resolved := True, resolved_at := Some now\<rparr>"
      have "length (unresolved_alerts k' (snd (resolve_alert method k now d)))
            \<le> length (unresolved_alerts k' d)"
        unfolding True resolve_alert_found[OF Some] unresolved_alerts_def
        using sub[of "\<lambda>a. alert_product a = k' \<and> is_resolved a = False" ?b "alerts d"]
        by simp
      also have "\<dots> \<le> 1" using inv by blast
      finally show ?thesis .
    qed
  qed
qed


lemma save_alerts:
  "alerts (snd (save m now d)) = alerts d"
proof (cases "movement_pk m")
  case None
  then show ?thesis
  proof (cases rule: save_new_cases[where m = m and now = now and d = d])
    case (ok p n m')
    show ?thesis unfolding ok(6) by (simp add: save_product_def)
  qed simp_all
next
  case (Some k)
  show ?thesis
  proof (cases "movement_type m = ''IN'' \<or> movement_type m = ''OUT'' \<or> movement_type m = ''ADJ''")
    case True
    show ?thesis unfolding save_existing[OF Some True refl] by simp
  next
    case False
    then show ?thesis by (simp add: save_invalid_type)
  qed
qed

lemma unresolved_alerts_cong:
  "alerts d' = alerts d \<Longrightarrow> unresolved_alerts k d' = unresolved_alerts k d"
  by (simp add: unresolved_alerts_def)

lemma stock_movement_create_invariant:
  assumes inv: "\<forall>k. length (unresolved_alerts k d) \<le> 1"
  shows "\<forall>k. length (unresolved_alerts k (snd (stock_movement_create method f user now d))) \<le> 1"
proof (cases "method = ''POST'' \<and> is_valid f d")
  case False
  then have "snd (stock_movement_create method f user now d) = d"
    by (auto simp: stock_movement_create_def)
  then show ?thesis using inv by simp
next
  case True
  define m where "m = (form_save f)\<lparr>created_by := user\<rparr>"
  obtain r d1 where s: "save m now d = (r, d1)" by (cases "save m now d")
  have al: "alerts d1 = alerts d" using save_alerts[of m now d] unfolding s by simp
  have inv1: "\<forall>k. length (unresolved_alerts k d1) \<le> 1"
    using inv unresolved_alerts_cong[OF al] by simp
  show ?thesis
  proof (cases r)
    case (Inl e)
    have "snd (stock_movement_create method f user now d) = d"
      using True s Inl by (simp add: stock_movement_create_def m_def[symmetric])
    then show ?thesis using inv by simp
  next
    case (Inr m')
    show ?thesis
    proof (cases "get_product (product m') d1")
      case None
      have "snd (stock_movement_create method f user now d) = d"
        using True s Inr None by (simp add: stock_movement_create_def m_def[symmetric])
      then show ?thesis using inv by simp
    next
      case (Some p)
      obtain d2 where c: "create_alert_if_low p now d1 = (Inr (), d2)"
        and inv2: "\<forall>k. length (unresolved_alerts k d2) \<le> 1"
        using create_alert_if_low_twice[OF inv1, of p now now] by blast
      have "snd (stock_movement_create method f user now d) = d2"
        using True s Inr Some c by (simp add: stock_movement_create_def m_def[symmetric])
      then show ?thesis using inv2 by simp
    qed
  qed
qed

text \<open>
  Whatever the alerts are, the alert block never takes the number of unresolved alerts of
  a product above one where it was not already, and run again it changes nothing.
\<close>

lemma create_alert_if_low_bound:
  "snd (create_alert_if_low p t2 (snd (create_alert_if_low p t1 d))) = snd (create_alert_if_low p t1 d)
   \<and> length (unresolved_alerts k (snd (create_alert_if_low p t1 d)))
       \<le> max 1 (length (unresolved_alerts k d))"
proof (cases "is_low_stock p")
  case False
  have a: "create_alert_if_low p t d0 = (Inr (), d0)" for t d0
    using False by (simp add: create_alert_if_low_def)
  show ?thesis unfolding a snd_conv by simp
next
  case True
  show ?thesis
  proof (cases "unresolved_alerts (product_pk p) d")
    case Nil
    define a where "a = \<lparr>alert_pk = next_pk (map alert_pk (alerts d)), alert_product = product_pk p,
              alert_current_stock = current_stock p, alert_minimum_stock = minimum_stock p,
              is_resolved = False, alert_created_at = t1, resolved_at = None\<rparr>"
    define d1 where "d1 = d\<lparr>alerts := alerts d @ [a]\<rparr>"
    have g: "alert_get_or_create p t1 d = (Inr (a, True), d1)"
      unfolding d1_def by (rule alert_get_or_create_none[OF Nil a_def])
    have c1: "create_alert_if_low p t1 d = (Inr (), d1)"
      using True g by (simp add: create_alert_if_low_def)
    have af: "alert_product a = product_pk p" "is_resolved a = False" by (simp_all add: a_def)
    have u: "unresolved_alerts k' d1
             = unresolved_alerts k' d @ (if alert_product a = k' \<and> is_resolved a = False then [a] else [])"
      for k'
      unfolding d1_def by (rule unresolved_alerts_append)
    have one: "unresolved_alerts (product_pk p) d1 = [a]"
      unfolding u using Nil af by simp
    then have ne: "unresolved_alerts (product_pk p) d1 \<noteq> []" by simp
    have s2: "snd (create_alert_if_low p t2 d1) = d1"
      by (rule create_alert_if_low_unchanged[OF ne])
    have len: "length (unresolved_alerts k d1) \<le> max 1 (length (unresolved_alerts k d))"
    proof (cases "k = product_pk p")
      case True
      then show ?thesis using one by simp
    next
      case False
      then have "unresolved_alerts k d1 = unresolved_alerts k d" unfolding u using af by simp
      then show ?thesis by simp
    qed
    show ?thesis unfolding c1 snd_conv by (intro conjI s2 len)
  next
    case (Cons a rest)
    then have ne: "unresolved_alerts (product_pk p) d \<noteq> []" by simp
    have s: "snd (create_alert_if_low p t d) = d" for t
      by (rule create_alert_if_low_unchanged[OF ne])
    show ?thesis unfolding s by simp
  qed
qed

text \<open>
  C4, as the code has it.  The alert block of the view, run a second time right after the
  first, changes nothing; it never takes the number of unresolved alerts of a product
  above one where it was not already, it adds at most one alert, and none when the product
  has an unresolved alert.  So let no product have more than one unresolved alert.  Then
  the alert block succeeds; afterwards still no product has more than one unresolved
  alert and a product at or below its minimum has exactly one.  The movement view and the
  resolving of an alert keep the bound as well.  The bound itself is no constraint of the
  alerts' table.
\<close>

theorem at_most_one_unresolved_alert:
  "snd (create_alert_if_low p t2 (snd (create_alert_if_low p t1 d))) = snd (create_alert_if_low p t1 d)
   \<and> (\<forall>k. length (unresolved_alerts k (snd (create_alert_if_low p t1 d)))
            \<le> max 1 (length (unresolved_alerts k d)))
   \<and> ((\<forall>k. length (unresolved_alerts k d) \<le> 1) \<longrightarrow>
        (\<exists>d1. create_alert_if_low p t1 d = (Inr (), d1)
            \<and> create_alert_if_low p t2 d1 = (Inr (), d1)
            \<and> (\<forall>k. length (unresolved_alerts k d1) \<le> 1)
            \<and> (is_low_stock p \<longrightarrow> length (unresolved_alerts (product_pk p) d1) = 1)
            \<and> (unresolved_alerts (product_pk p) d \<noteq> [] \<longrightarrow> d1 = d)
            \<and> length (alerts d1) \<le> length (alerts d) + 1)
         \<and> (\<forall>k. length (unresolved_alerts k (snd (stock_movement_create method f user t1 d))) \<le> 1)
         \<and> (\<forall>k. length (unresolved_alerts k (snd (resolve_alert method a t1 d))) \<le> 1))"
proof (intro conjI impI allI)
  show "snd (create_alert_if_low p t2 (snd (create_alert_if_low p t1 d))) = snd (create_alert_if_low p t1 d)"
    by (rule create_alert_if_low_bound[THEN conjunct1])
  show "length (unresolved_alerts k (snd (create_alert_if_low p t1 d)))
            \<le> max 1 (length (unresolved_alerts k d))" for k
    by (rule create_alert_if_low_bound[THEN conjunct2])
next
  assume inv: "\<forall>k. length (unresolved_alerts k d) \<le> 1"
  show "\<exists>d1. create_alert_if_low p t1 d = (Inr (), d1)
            \<and> create_alert_if_low p t2 d1 = (Inr (), d1)
            \<and> (\<forall>k. length (unresolved_alerts k d1) \<le> 1)
            \<and> (is_low_stock p \<longrightarrow> length (unresolved_alerts (product_pk p) d1) = 1)
            \<and> (unresolved_alerts (product_pk p) d \<noteq> [] \<longrightarrow> d1 = d)
            \<and> length (alerts d1) \<le> length (alerts d) + 1"
    by (rule create_alert_if_low_twice[OF inv])
  show "length (unresolved_alerts k (snd (stock_movement_create method f user t1 d))) \<le> 1" for k
    using stock_movement_create_invariant[OF inv] by blast
  show "length (unresolved_alerts k (snd (resolve_alert method a t1 d))) \<le> 1" for k
    using resolve_alert_invariant[OF inv] by blast
qed

theorem at_most_one_unresolved_alert_witness:
  "unresolved_alerts 1 shop = []
   \<and> is_low_stock (widget\<lparr>current_stock := 4\<rparr>)
   \<and> (\<exists>d1. create_alert_if_low (widget\<lparr>current_stock := 4\<rparr>) 7 shop = (Inr (), d1)
          \<and> create_alert_if_low (widget\<lparr>current_stock := 4\<rparr>) 8 d1 = (Inr (), d1)
          \<and> length (unresolved_alerts 1 d1) = 1
          \<and> length (alerts d1) \<le> 1)"
proof -
  let ?p = "widget\<lparr>current_stock := 4\<rparr>"
  have u: "unresolved_alerts k shop = []" for k by (simp add: unresolved_alerts_def shop_def)
  then have inv: "\<forall>k. length (unresolved_alerts k shop) \<le> 1" by simp
  have low: "is_low_stock ?p" by (simp add: is_low_stock_def widget_def)
  have pk: "product_pk ?p = 1" by (simp add: widget_def)
  have al: "length (alerts shop) = 0" by (simp add: shop_def)
  obtain d1 where a: "create_alert_if_low ?p 7 shop = (Inr (), d1)"
    and b: "create_alert_if_low ?p 8 d1 = (Inr (), d1)"
    and c: "is_low_stock ?p \<longrightarrow> length (unresolved_alerts (product_pk ?p) d1) = 1"
    and e: "length (alerts d1) \<le> length (alerts shop) + 1"
    using at_most_one_unresolved_alert[where p = ?p and ?t1.0 = 7 and ?t2.0 = 8 and d = shop,
        THEN conjunct2, THEN conjunct2, THEN mp, OF inv, THEN conjunct1]
    by blast
  have c': "length (unresolved_alerts 1 d1) = 1" using c low pk by simp
  have e': "length (alerts d1) \<le> 1" using e al by simp
  have "\<exists>d1. create_alert_if_low ?p 7 shop = (Inr (), d1)
          \<and> create_alert_if_low ?p 8 d1 = (Inr (), d1)
          \<and> length (unresolved_alerts 1 d1) = 1
          \<and> length (alerts d1) \<le> 1"
    by (rule exI[of _ d1], intro conjI a b c' e')
  then show ?thesis by (intro conjI u low)
qed

text \<open>
  C4 as the specification states it fails: the admin's add page puts a second unresolved
  alert on the product that has one, and the alert block of the view then raises for that
  product and creates nothing.
\<close>

theorem second_unresolved_alert_counterexample:
  "unresolved_alerts 1 low_shop = [open_alert]
   \<and> fst (alert_admin_add 1 2 5 False 9 low_shop)
       = Inr \<lparr>alert_pk = 2, alert_product = 1, alert_current_stock = 2, alert_minimum_stock = 5,
              is_resolved = False, alert_created_at = 9, resolved_at = None\<rparr>
   \<and> length (unresolved_alerts 1 (snd (alert_admin_add 1 2 5 False 9 low_shop))) = 2
   \<and> create_alert_if_low (widget\<lparr>current_stock := 2\<rparr>) 10 (snd (alert_admin_add 1 2 5 False 9 low_shop))
       = (Inl MultipleObjectsReturned, snd (alert_admin_add 1 2 5 False 9 low_shop))"
proof -
  define a2 where "a2 = \<lparr>alert_pk = 2, alert_product = 1, alert_current_stock = 2,
      alert_minimum_stock = 5, is_resolved = False, alert_created_at = 9, resolved_at = None\<rparr>"
  have g: "get_product 1 low_shop \<noteq> None"
    by (simp add: get_product_def low_shop_def widget_def)
  have r: "in_integer_range low_shop 2" "in_integer_range low_shop 5"
    by (simp_all add: in_integer_range_def low_shop_def)
  have al: "alerts low_shop = [open_alert]" by (simp add: low_shop_def)
  have pk: "next_pk [alert_pk open_alert] = 2"
    by (simp add: open_alert_def next_pk_def)
  have add: "alert_admin_add 1 2 5 False 9 low_shop = (Inr a2, low_shop\<lparr>alerts := [open_alert, a2]\<rparr>)"
    using g r by (simp add: alert_admin_add_def Let_def pk a2_def al)
  have u1: "unresolved_alerts 1 low_shop = [open_alert]"
    by (simp add: unresolved_alerts_def al open_alert_def)
  have u2: "unresolved_alerts 1 (low_shop\<lparr>alerts := [open_alert, a2]\<rparr>) = [open_alert, a2]"
    by (simp add: unresolved_alerts_def open_alert_def a2_def)
  have c1: "fst (alert_admin_add 1 2 5 False 9 low_shop) = a2_inr"
    if "a2_inr = Inr a2" for a2_inr :: "error + low_stock_alert"
    unfolding add that by simp
  have c2: "length (unresolved_alerts 1 (snd (alert_admin_add 1 2 5 False 9 low_shop))) = 2"
    unfolding add snd_conv u2 by simp
  have low: "is_low_stock (widget\<lparr>current_stock := 2\<rparr>)" by (simp add: is_low_stock_def widget_def)
  have pkw: "product_pk (widget\<lparr>current_stock := 2\<rparr>) = 1" by (simp add: widget_def)
  have c3: "create_alert_if_low (widget\<lparr>current_stock := 2\<rparr>) 10 (snd (alert_admin_add 1 2 5 False 9 low_shop))
       = (Inl MultipleObjectsReturned, snd (alert_admin_add 1 2 5 False 9 low_shop))"
    unfolding add snd_conv create_alert_if_low_def alert_get_or_create_def pkw u2
    using low by simp
  show ?thesis
    by (intro conjI u1 c1[unfolded a2_def, OF refl] c2 c3)
qed

section \<open>Claims about the movement view\<close>

lemma get_product_self: "get_product k d = Some p \<Longrightarrow> get_product (product_pk p) d = Some p"
  using get_product_mem[of k d p] by simp


lemma clean_found:
  assumes "get_product (form_product f) d = Some p"
    and "form_movement_type f = ''IN'' \<or> form_movement_type f = ''OUT'' \<or> form_movement_type f = ''ADJ''"
  shows "clean (cleaned_product f d) (cleaned_movement_type f) (Some (form_quantity f)) d
         = (if form_movement_type f = ''OUT'' \<and> form_quantity f \<noteq> 0 \<and> current_stock p < form_quantity f
            then [ValidationError ''Stock insuficiente''] else [])"
  using assms get_product_self[OF assms(1)]
  by (auto simp: clean_def cleaned_product_def cleaned_movement_type_def)

lemma is_valid_iff:
  "is_valid f d \<longleftrightarrow>
     (\<exists>p. get_product (form_product f) d = Some p
          \<and> (form_movement_type f = ''OUT'' \<longrightarrow> form_quantity f \<le> current_stock p))
     \<and> (form_movement_type f = ''IN'' \<or> form_movement_type f = ''OUT'' \<or> form_movement_type f = ''ADJ'')
     \<and> 1 \<le> form_quantity f
     \<and> (\<forall>hi. snd (integer_range d) = Some hi \<longrightarrow> form_quantity f \<le> hi)
     \<and> (\<forall>x. form_unit_price f = Some x \<longrightarrow> decimal_validator 10 2 x \<and> 0 \<le> decimal_value x)
     \<and> length (form_reference f) \<le> 100"
proof (cases "get_product (form_product f) d")
  case None
  then show ?thesis by (simp add: is_valid_def form_errors_def cleaned_product_def)
next
  case (Some p)
  show ?thesis
  proof (cases "form_movement_type f = ''IN'' \<or> form_movement_type f = ''OUT'' \<or> form_movement_type f = ''ADJ''")
    case False
    then show ?thesis by (auto simp: is_valid_def form_errors_def cleaned_movement_type_def)
  next
    case True
    have cp: "cleaned_product f d \<noteq> None" using Some by (simp add: cleaned_product_def)
    have cm: "cleaned_movement_type f \<noteq> None" using True by (auto simp: cleaned_movement_type_def)
    have digits: "((case form_unit_price f of None \<Rightarrow> []
                   | Some x \<Rightarrow> if decimal_validator 10 2 x then []
                              else [ValidationError ''unit_price: max_digits'']) = [])
                 \<longleftrightarrow> (\<forall>x. form_unit_price f = Some x \<longrightarrow> decimal_validator 10 2 x)"
      by (cases "form_unit_price f") auto
    have price: "((case form_unit_price f of None \<Rightarrow> []
                   | Some x \<Rightarrow> if decimal_value x < 0 then [ValidationError ''unit_price: min_value'']
                              else []) = [])
                 \<longleftrightarrow> (\<forall>x. form_unit_price f = Some x \<longrightarrow> 0 \<le> decimal_value x)"
      by (cases "form_unit_price f") auto
    have range: "((case snd (integer_range d) of None \<Rightarrow> []
                   | Some hi \<Rightarrow> if form_quantity f > hi then [ValidationError ''quantity: max_value'']
                               else []) = [])
                 \<longleftrightarrow> (\<forall>hi. snd (integer_range d) = Some hi \<longrightarrow> form_quantity f \<le> hi)"
      by (cases "snd (integer_range d)") auto
    have "is_valid f d \<longleftrightarrow>
            (\<forall>x. form_unit_price f = Some x \<longrightarrow> decimal_validator 10 2 x)
            \<and> length (form_reference f) \<le> 100
            \<and> \<not> (form_movement_type f = ''OUT'' \<and> form_quantity f \<noteq> 0 \<and> current_stock p < form_quantity f)
            \<and> 1 \<le> form_quantity f
            \<and> (\<forall>hi. snd (integer_range d) = Some hi \<longrightarrow> form_quantity f \<le> hi)
            \<and> (\<forall>x. form_unit_price f = Some x \<longrightarrow> 0 \<le> decimal_value x)"
      unfolding is_valid_def form_errors_def clean_found[OF Some True] append_is_Nil_conv
        digits price range
      using cp cm by auto
    then show ?thesis using Some True by auto
  qed
qed









lemma create_alert_if_low_products:
  "products (snd (create_alert_if_low p now d)) = products d"
proof (cases "is_low_stock p")
  case False
  then show ?thesis by (simp add: create_alert_if_low_def)
next
  case True
  obtain r d1 where g: "alert_get_or_create p now d = (r, d1)"
    by (cases "alert_get_or_create p now d")
  have "products d1 = products d" using alert_get_or_create_appends[of p now d] unfolding g by auto
  then show ?thesis using True g by (cases r) (simp_all add: create_alert_if_low_def)
qed

text \<open>
  The view as a whole: whatever is submitted, balances that were not negative are not
  negative afterwards; the form lets through no quantity below 1.
\<close>

lemma stock_movement_create_nonnegative:
  assumes inv: "\<forall>p \<in> set (products d). 0 \<le> current_stock p"
  shows "\<forall>p \<in> set (products (snd (stock_movement_create method f user now d))). 0 \<le> current_stock p"
proof (cases "method = ''POST'' \<and> is_valid f d")
  case False
  then have "snd (stock_movement_create method f user now d) = d"
    by (auto simp: stock_movement_create_def)
  then show ?thesis using inv by simp
next
  case True
  define m where "m = (form_save f)\<lparr>created_by := user\<rparr>"
  have new: "movement_pk m = None" by (simp add: m_def form_save_def)
  have "1 \<le> form_quantity f" using True by (simp add: is_valid_iff)
  then have q: "0 \<le> quantity m" by (simp add: m_def form_save_def)
  obtain r d1 where s: "save m now d = (r, d1)" by (cases "save m now d")
  show ?thesis
  proof (cases r)
    case (Inl e)
    have "snd (stock_movement_create method f user now d) = d"
      unfolding stock_movement_create_def Let_def m_def[symmetric] using True s Inl by simp
    then show ?thesis using inv by simp
  next
    case (Inr m')
    have inv1: "\<forall>p \<in> set (products d1). 0 \<le> current_stock p"
      using save_new_nonnegative[OF new q s[unfolded Inr] inv] by (elim conjE)
    show ?thesis
    proof (cases "get_product (product m') d1")
      case None
      have "snd (stock_movement_create method f user now d) = d"
        unfolding stock_movement_create_def Let_def m_def[symmetric] using True s Inr None by simp
      then show ?thesis using inv by simp
    next
      case (Some p)
      obtain r2 d2 where c: "create_alert_if_low p now d1 = (r2, d2)"
        by (cases "create_alert_if_low p now d1")
      have p2: "products d2 = products d1"
        using create_alert_if_low_products[of p now d1] unfolding c by simp
      have "snd (stock_movement_create method f user now d) = d
            \<or> snd (stock_movement_create method f user now d) = d2"
        unfolding stock_movement_create_def Let_def m_def[symmetric]
        using True s Inr Some c by (cases r2) simp_all
      then show ?thesis using inv inv1 p2 by auto
    qed
  qed
qed

section \<open>Claims about the CSV import\<close>

lemma category_get_or_create_frame:
  "movements (category_get_or_create c d) = movements d \<and> alerts (category_get_or_create c d) = alerts d
   \<and> products (category_get_or_create c d) = products d"
  by (simp add: category_get_or_create_def)

lemma supplier_get_or_create_frame:
  "movements (snd (supplier_get_or_create n d)) = movements d
   \<and> alerts (snd (supplier_get_or_create n d)) = alerts d
   \<and> products (snd (supplier_get_or_create n d)) = products d"
  by (simp add: supplier_get_or_create_def split: list.splits)

lemma update_or_create_frame:
  "movements (snd (update_or_create c pd d)) = movements d
   \<and> alerts (snd (update_or_create c pd d)) = alerts d"
  by (simp add: update_or_create_def save_product_def split: list.splits)

lemma update_or_create_stock:
  assumes "update_or_create c pd d = (Inr created, d')"
  shows "\<exists>p \<in> set (products d'). code p = c \<and> current_stock p = current_stock pd"
proof (cases "filter (\<lambda>p. code p = c) (products d)")
  case Nil
  then have "d' = d\<lparr>products := products d @
                [pd\<lparr>product_pk := next_pk (map product_pk (products d)), code := c\<rparr>]\<rparr>"
    using assms by (simp add: update_or_create_def)
  then show ?thesis by simp
next
  case (Cons p rest)
  show ?thesis
  proof (cases rest)
    case Nil
    define p' where "p' = p\<lparr>name := name pd, description := description pd, category := category pd,
                supplier := supplier pd, unit_price := unit_price pd,
                minimum_stock := minimum_stock pd, maximum_stock := maximum_stock pd,
                current_stock := current_stock pd\<rparr>"
    have one: "filter (\<lambda>p. code p = c) (products d) = [p]" using Cons Nil by simp
    have "p \<in> set (filter (\<lambda>p. code p = c) (products d))" unfolding one by simp
    then have pin: "p \<in> set (products d)" and pc: "code p = c" by simp_all
    have d': "d' = save_product p' d"
      using assms one by (simp add: update_or_create_def p'_def)
    have "p' \<in> set (products d')"
      unfolding d' products_save_product using pin by (auto simp: p'_def image_iff intro!: bexI[of _ p])
    moreover have "code p' = c" "current_stock p' = current_stock pd" using pc by (simp_all add: p'_def)
    ultimately show ?thesis by blast
  next
    case (Cons q qs)
    then show ?thesis using assms \<open>filter (\<lambda>p. code p = c) (products d) = p # rest\<close>
      by (simp add: update_or_create_def)
  qed
qed

lemma product_data_stock:
  assumes "product_data to_int to_float row c s = Inr pd"
  shows "row_int to_int row ''current_stock'' 0 = Inr (current_stock pd)"
  using assms
  by (auto simp: product_data_def and_then_def split: sum.splits)

lemma import_row_frame:
  "movements (snd (import_row to_int to_float row d)) = movements d
   \<and> alerts (snd (import_row to_int to_float row d)) = alerts d"
proof -
  have c: "movements (category_get_or_create c d) = movements d"
    "alerts (category_get_or_create c d) = alerts d" for c
    using category_get_or_create_frame[of c d] by simp_all
  have s: "movements (snd (supplier_get_or_create n d0)) = movements d0"
    "alerts (snd (supplier_get_or_create n d0)) = alerts d0" for n d0
    using supplier_get_or_create_frame[of n d0] by simp_all
  have u: "movements (snd (update_or_create cd pd d0)) = movements d0"
    "alerts (snd (update_or_create cd pd d0)) = alerts d0" for cd pd d0
    using update_or_create_frame[of cd pd d0] by simp_all
  have s': "movements d2 = movements d0 \<and> alerts d2 = alerts d0"
    if "supplier_get_or_create n d0 = (r, d2)" for n d0 r d2
    using s[of n d0] that by simp
  show ?thesis
    by (auto simp: import_row_def Let_def c u split: sum.splits prod.splits dest!: s')
qed


lemma import_row_stock:
  assumes "import_row to_int to_float row d = (Inr created, d')"
  shows "\<exists>c cur. map_of row ''code'' = Some c
           \<and> row_int to_int row ''current_stock'' 0 = Inr cur
           \<and> (\<exists>p \<in> set (products d'). code p = c \<and> current_stock p = cur)"
proof -
  obtain c0 where c0: "row_item row ''category'' = Inr c0"
    using assms by (cases "row_item row ''category''") (simp_all add: import_row_def)
  define d1 where "d1 = category_get_or_create c0 d"
  obtain s0 where s0: "row_item row ''supplier'' = Inr s0"
    using assms c0 by (cases "row_item row ''supplier''") (simp_all add: import_row_def Let_def)
  obtain r2 d2 where sg: "supplier_get_or_create s0 d1 = (r2, d2)"
    by (cases "supplier_get_or_create s0 d1")
  obtain u2 where r2: "r2 = Inr u2"
    using assms c0 s0 sg by (cases r2) (simp_all add: import_row_def Let_def d1_def)
  obtain pd where pd: "product_data to_int to_float row c0 s0 = Inr pd"
    using assms c0 s0 sg r2
    by (cases "product_data to_int to_float row c0 s0") (simp_all add: import_row_def Let_def d1_def)
  obtain cd where cd: "row_item row ''code'' = Inr cd"
    using assms c0 s0 sg r2 pd
    by (cases "row_item row ''code''") (simp_all add: import_row_def Let_def d1_def)
  have u: "update_or_create cd pd d2 = (Inr created, d')"
    using assms c0 s0 sg r2 pd cd by (simp add: import_row_def Let_def d1_def)
  have a: "map_of row ''code'' = Some cd"
    using cd by (simp add: row_item_def split: option.splits)
  have b: "row_int to_int row ''current_stock'' 0 = Inr (current_stock pd)"
    by (rule product_data_stock[OF pd])
  have c: "\<exists>p \<in> set (products d'). code p = cd \<and> current_stock p = current_stock pd"
    by (rule update_or_create_stock[OF u])
  show ?thesis
    by (rule exI[of _ cd], rule exI[of _ "current_stock pd"], intro conjI a b c)
qed

lemma csv_import_loop_frame:
  "movements (snd (csv_import_loop to_int to_float rows k acc d)) = movements d
   \<and> alerts (snd (csv_import_loop to_int to_float rows k acc d)) = alerts d"
proof (induction rows arbitrary: k acc d)
  case Nil
  then show ?case by simp
next
  case (Cons row rows)
  obtain cc uc es where acc: "acc = (cc, uc, es)" by (cases acc)
  obtain r d1 where i: "import_row to_int to_float row d = (r, d1)"
    by (cases "import_row to_int to_float row d")
  have f: "movements d1 = movements d" "alerts d1 = alerts d"
    using import_row_frame[of to_int to_float row d] unfolding i by simp_all
  show ?case
  proof (cases r)
    case (Inl e)
    have "csv_import_loop to_int to_float (row # rows) k acc d
          = csv_import_loop to_int to_float rows (Suc k) (cc, uc, es @ [(k, e)]) d1"
      using acc i Inl by simp
    then show ?thesis using Cons.IH[of "Suc k" "(cc, uc, es @ [(k, e)])" d1] f by simp
  next
    case (Inr created)
    define acc' where "acc' = (if created then (cc + 1, uc, es) else (cc, uc + 1, es))"
    have "csv_import_loop to_int to_float (row # rows) k acc d
          = csv_import_loop to_int to_float rows (Suc k) acc' d1"
      using acc i Inr by (simp add: acc'_def)
    then show ?thesis using Cons.IH[of "Suc k" acc' d1] f by simp
  qed
qed

text \<open>
  C7, as the code has it.  The import never touches the ledger or the alerts: after any
  list of rows, and after any single row, both are what they were.  A row that is imported
  leaves a product of the row's code whose balance is the row's \<open>current_stock\<close> column
  (0 when the column is missing), written into the product directly.
\<close>

theorem csv_import_writes_stock_directly:
  "movements (snd (csv_import to_int to_float rows d)) = movements d
   \<and> alerts (snd (csv_import to_int to_float rows d)) = alerts d
   \<and> movements (snd (import_row to_int to_float row d)) = movements d
   \<and> (\<forall>created d'. import_row to_int to_float row d = (Inr created, d') \<longrightarrow>
         (\<exists>c cur. map_of row ''code'' = Some c
            \<and> row_int to_int row ''current_stock'' 0 = Inr cur
            \<and> (\<exists>p \<in> set (products d'). code p = c \<and> current_stock p = cur)))"
proof (intro conjI allI impI)
  show "movements (snd (csv_import to_int to_float rows d)) = movements d"
    unfolding csv_import_def using csv_import_loop_frame by blast
  show "alerts (snd (csv_import to_int to_float rows d)) = alerts d"
    unfolding csv_import_def using csv_import_loop_frame by blast
  show "movements (snd (import_row to_int to_float row d)) = movements d"
    using import_row_frame by blast
next
  fix created d' assume "import_row to_int to_float row d = (Inr created, d')"
  then show "\<exists>c cur. map_of row ''code'' = Some c
            \<and> row_int to_int row ''current_stock'' 0 = Inr cur
            \<and> (\<exists>p \<in> set (products d'). code p = c \<and> current_stock p = cur)"
    by (rule import_row_stock)
qed

text \<open>The row for P1 on the shop: the product is updated, its balance set to 50.\<close>

lemma import_stock_row:
  "import_row int_of_numeral float_of_numeral stock_row shop
   = (Inr False, shop\<lparr>products := [widget\<lparr>minimum_stock := 10, maximum_stock := 1000,
                                           current_stock := 50\<rparr>]\<rparr>)"
  by (simp add: import_row_def row_item_def stock_row_def category_get_or_create_def
      supplier_get_or_create_def product_data_def and_then_def row_float_def row_int_def
      update_or_create_def save_product_def int_of_numeral_def float_of_numeral_def
      shop_def widget_def Let_def)

theorem csv_import_writes_stock_directly_witness:
  "import_row int_of_numeral float_of_numeral stock_row shop
     = (Inr False, shop\<lparr>products := [widget\<lparr>minimum_stock := 10, maximum_stock := 1000,
                                             current_stock := 50\<rparr>]\<rparr>)
   \<and> (\<exists>c cur. map_of stock_row ''code'' = Some c
          \<and> row_int int_of_numeral stock_row ''current_stock'' 0 = Inr cur
          \<and> (\<exists>p \<in> set (products (shop\<lparr>products := [widget\<lparr>minimum_stock := 10,
                                       maximum_stock := 1000, current_stock := 50\<rparr>]\<rparr>)).
                 code p = c \<and> current_stock p = cur))
   \<and> movements (snd (csv_import int_of_numeral float_of_numeral [stock_row] shop)) = movements shop"
proof -
  note t = csv_import_writes_stock_directly[where to_int = int_of_numeral
      and to_float = float_of_numeral and row = stock_row and d = shop and rows = "[stock_row]"]
  note a = t[THEN conjunct1]
  note b = t[THEN conjunct2, THEN conjunct2, THEN conjunct2, rule_format, OF import_stock_row]
  show ?thesis by (intro conjI import_stock_row b a)
qed

text \<open>
  C7 as the specification states it fails: importing the row changes the balance of P1
  from 10 to 50 and the ledger stays empty.
\<close>

theorem csv_import_stock_counterexample:
  "map current_stock (products shop) = [10]
   \<and> map current_stock (products (snd (csv_import int_of_numeral float_of_numeral [stock_row] shop)))
       = [50]
   \<and> movements (snd (csv_import int_of_numeral float_of_numeral [stock_row] shop)) = []
   \<and> alerts (snd (csv_import int_of_numeral float_of_numeral [stock_row] shop)) = []
   \<and> fst (csv_import int_of_numeral float_of_numeral [stock_row] shop) = (0, 1, [])"
proof -
  have r: "csv_import int_of_numeral float_of_numeral [stock_row] shop
           = ((0, 1, []), shop\<lparr>products := [widget\<lparr>minimum_stock := 10, maximum_stock := 1000,
                                                     current_stock := 50\<rparr>]\<rparr>)"
    by (simp add: csv_import_def import_stock_row)
  have a1: "map current_stock (products shop) = [10]" by (simp add: shop_def widget_def)
  have a2: "map current_stock (products (snd (csv_import int_of_numeral float_of_numeral [stock_row] shop)))
       = [50]"
    unfolding r by simp
  have a3: "movements (snd (csv_import int_of_numeral float_of_numeral [stock_row] shop)) = []"
    unfolding r by (simp add: shop_def)
  have a4: "alerts (snd (csv_import int_of_numeral float_of_numeral [stock_row] shop)) = []"
    unfolding r by (simp add: shop_def)
  have a5: "fst (csv_import int_of_numeral float_of_numeral [stock_row] shop) = (0, 1, [])"
    unfolding r by simp
  show ?thesis by (intro conjI a1 a2 a3 a4 a5)
qed


section \<open>The balance bound across the import and the movement view\<close>




end
